theory Spec2Isabelle
  imports Main "HOL-Library.Word"
begin

unbundle bit_operations_syntax

section \<open>Identifiers, keys, errors\<close>

text \<open>
  \<^verbatim>\<open>idpool.ID\<close> is an unsigned 64-bit integer; \<^verbatim>\<open>idpool.NoID\<close> is 0.
\<close>

type_synonym ID = "64 word"

abbreviation NoID :: ID where
  "NoID \<equiv> 0"

text \<open>
  \<^verbatim>\<open>AllocatorKey\<close> is an interface. The allocator only reads \<^verbatim>\<open>GetKey()\<close> (the
  canonical string, used as the index of the local tables) and \<^verbatim>\<open>String()\<close> (used in
  messages); the metadata slot (\<^verbatim>\<open>Value\<close>/\<^verbatim>\<open>PutValue\<close>) is opaque to it and may differ in
  the copy a backend returns.
\<close>

record AllocatorKey =
  GetKey :: string
  KeyString :: string
  KeyValue :: nat

text \<open>
  Go errors are values; each constructor is one \<^verbatim>\<open>errors.New\<close>/\<^verbatim>\<open>fmt.Errorf\<close> site of
  allocator.go, carrying what the message is formatted from (a wrapped error for \<^verbatim>\<open>%w\<close>).
  An error returned by the backend is opaque: \<open>BackendError\<close> with the backend's code.
  The wrapped \<^verbatim>\<open>ctx.Err()\<close> of the three cancellation messages is left out.
\<close>

datatype error =
    BackendError nat
  | MinimumIDTooSmall
  | MaximumIDNotGreater ID ID
  | AllocationCancelled
  | ReleaseCancelled
  | KeyAllocationCancelled
  | BackoffCancelled
  | RecreateMasterKeyFailed string ID error
  | ReserveLocalKeyFailed string error
  | CreateSecondaryKeyFailed string error
  | NoMoreAvailableIDs
  | AnotherWriter string
  | FoundMasterKey string
  | UnableToAllocateID ID string error
  | SecondaryKeyCreationFailed string error
  | IdentityNotFound string
  | TimedOutWaiting string error
  | LocalKeyDifferentValue ID ID
  | LocalKeyNotFound string

text \<open>A Go channel that is only ever closed: nil, open, or closed.\<close>

datatype chan = NilChan | OpenChan | ClosedChan

datatype panic = CloseOfNilChannel | CloseOfClosedChannel

text \<open>\<^verbatim>\<open>close(c)\<close>: panics on a nil channel and on a closed one.\<close>

fun close_chan :: "chan \<Rightarrow> panic + chan" where
  "close_chan NilChan = Inl CloseOfNilChannel"
| "close_chan ClosedChan = Inl CloseOfClosedChannel"
| "close_chan OpenChan = Inr ClosedChan"

section \<open>IDPool\<close>

text \<open>
  Modelled from the spec: package \<^verbatim>\<open>idpool\<close> is not among the sources. Section 4.1 of the
  specification: the pool manages the closed range \<open>[min,max]\<close>; \<^verbatim>\<open>LeaseAvailableID\<close>
  reserves an unused ID, marking it leased but not yet in use, or gives \<open>NoID\<close>;
  \<^verbatim>\<open>Use\<close> promotes a leased ID to in-use; \<^verbatim>\<open>Release\<close> returns an ID to the available
  pool. An ID that is neither available nor leased is in use. The specification does not
  say which unused ID is leased; the model takes the least.
\<close>

record IDPool =
  available :: "ID set"
  leased :: "ID set"

definition NewIDPool :: "ID \<Rightarrow> ID \<Rightarrow> IDPool" where
  "NewIDPool lo hi = \<lparr>available = {lo..hi}, leased = {}\<rparr>"

definition LeaseAvailableID :: "IDPool \<Rightarrow> ID \<times> IDPool" where
  "LeaseAvailableID p =
     (if available p = {} then (NoID, p)
      else (Min (available p),
            p\<lparr>available := available p - {Min (available p)},
              leased := insert (Min (available p)) (leased p)\<rparr>))"

definition idPool_Use :: "IDPool \<Rightarrow> ID \<Rightarrow> IDPool" where
  "idPool_Use p i = p\<lparr>leased := leased p - {i}\<rparr>"

definition idPool_Release :: "IDPool \<Rightarrow> ID \<Rightarrow> IDPool" where
  "idPool_Release p i = p\<lparr>available := insert i (available p), leased := leased p - {i}\<rparr>"

section \<open>LocalKeys\<close>

text \<open>
  Modelled from the spec: the local key table (\<^verbatim>\<open>localKeys\<close>) is not among the sources.
  Section 4.2 of the specification: an entry is \<open>{key, id, refcount, verified}\<close>;
  \<^verbatim>\<open>allocate\<close> creates an unknown key with refcount 1 and \<open>firstUse = true\<close>, increments
  the refcount of a key known with the same id, and reports an error for a key known with
  a different id; \<^verbatim>\<open>use\<close> increments the refcount of an existing entry and returns its
  ID, else \<open>NoID\<close> with no side effect; \<^verbatim>\<open>release\<close> decrements the refcount and, when it
  reaches zero, removes the entry and reports \<open>lastUse = true\<close>; \<^verbatim>\<open>lookupKey\<close> is
  read-only; \<^verbatim>\<open>verify\<close> marks the entry verified and errors only if it is missing.
  The specification gives the refcount as an unsigned integer of no stated width: it is
  a natural number here. \<^verbatim>\<open>release\<close> of an unknown key is the error case of its
  signature.
\<close>

record localKey =
  lk_key :: string
  lk_id :: ID
  lk_refcount :: nat
  lk_verified :: bool

type_synonym localKeys = "string \<rightharpoonup> localKey"

definition newLocalKeys :: localKeys where
  "newLocalKeys = Map.empty"

definition localKeys_allocate ::
  "localKeys \<Rightarrow> string \<Rightarrow> AllocatorKey \<Rightarrow> ID \<Rightarrow> (ID \<times> bool \<times> error option) \<times> localKeys" where
  "localKeys_allocate lk k key i =
     (case lk k of
        None \<Rightarrow>
          ((i, True, None),
           lk(k \<mapsto> \<lparr>lk_key = k, lk_id = i, lk_refcount = 1, lk_verified = False\<rparr>))
      | Some e \<Rightarrow>
          if lk_id e = i
          then ((i, False, None), lk(k \<mapsto> e\<lparr>lk_refcount := lk_refcount e + 1\<rparr>))
          else ((lk_id e, False, Some (LocalKeyDifferentValue i (lk_id e))), lk))"

definition localKeys_use :: "localKeys \<Rightarrow> string \<Rightarrow> ID \<times> localKeys" where
  "localKeys_use lk k =
     (case lk k of
        None \<Rightarrow> (NoID, lk)
      | Some e \<Rightarrow> (lk_id e, lk(k \<mapsto> e\<lparr>lk_refcount := lk_refcount e + 1\<rparr>)))"

definition localKeys_release ::
  "localKeys \<Rightarrow> string \<Rightarrow> (bool \<times> ID \<times> error option) \<times> localKeys" where
  "localKeys_release lk k =
     (case lk k of
        None \<Rightarrow> ((False, NoID, Some (LocalKeyNotFound k)), lk)
      | Some e \<Rightarrow>
          if lk_refcount e - 1 = 0
          then ((True, lk_id e, None), lk(k := None))
          else ((False, lk_id e, None), lk(k \<mapsto> e\<lparr>lk_refcount := lk_refcount e - 1\<rparr>)))"

definition localKeys_lookupKey :: "localKeys \<Rightarrow> string \<Rightarrow> ID" where
  "localKeys_lookupKey lk k = (case lk k of None \<Rightarrow> NoID | Some e \<Rightarrow> lk_id e)"

definition localKeys_verify :: "localKeys \<Rightarrow> string \<Rightarrow> error option \<times> localKeys" where
  "localKeys_verify lk k =
     (case lk k of
        None \<Rightarrow> (Some (LocalKeyNotFound k), lk)
      | Some e \<Rightarrow> (None, lk(k \<mapsto> e\<lparr>lk_verified := True\<rparr>)))"

section \<open>Cache\<close>

text \<open>
  Modelled from the spec: the cache (\<^verbatim>\<open>cache\<close>, \<^verbatim>\<open>newCache\<close>) is not among the sources.
  Section 4.3 of the specification: two indexes, by key and by ID; \<^verbatim>\<open>get\<close> looks a key
  up and gives \<open>NoID\<close> when absent; \<^verbatim>\<open>insert\<close> makes a mapping visible locally; a
  stopped cache is terminal.
\<close>

record cache =
  byKey :: "string \<rightharpoonup> ID"
  byID :: "ID \<rightharpoonup> AllocatorKey"
  stopped :: bool

definition newCache :: cache where
  "newCache = \<lparr>byKey = Map.empty, byID = Map.empty, stopped = False\<rparr>"

definition cache_get :: "cache \<Rightarrow> string \<Rightarrow> ID" where
  "cache_get c k = (case byKey c k of None \<Rightarrow> NoID | Some i \<Rightarrow> i)"

definition cache_insert :: "cache \<Rightarrow> AllocatorKey \<Rightarrow> ID \<Rightarrow> cache" where
  "cache_insert c key i = c\<lparr>byKey := (byKey c)(GetKey key \<mapsto> i), byID := (byID c)(i \<mapsto> key)\<rparr>"

definition cache_stop :: "cache \<Rightarrow> cache" where
  "cache_stop c = c\<lparr>stopped := True\<rparr>"

section \<open>Backend\<close>

text \<open>
  \<^verbatim>\<open>Backend\<close> is an interface the allocator consumes. It is a parameter of the model: a
  record of the methods \<^verbatim>\<open>Allocate\<close>, \<^verbatim>\<open>Release\<close> and \<^verbatim>\<open>GetWithRetry\<close> reach, each a
  function of the backend's state \<open>'b\<close> (any type: what the backend sees of the context
  is part of it). A method returning \<^verbatim>\<open>(v, err)\<close> returns the pair; \<^verbatim>\<open>nil\<close> is \<open>None\<close>.
  A \<^verbatim>\<open>kvstore.KVLocker\<close> is an opaque handle.
\<close>

type_synonym KVLocker = nat

record 'b Backend =
  bLock :: "'b \<Rightarrow> AllocatorKey \<Rightarrow> (KVLocker \<times> nat option) \<times> 'b"
  bUnlock :: "'b \<Rightarrow> KVLocker \<Rightarrow> 'b"
  bGetIfLocked :: "'b \<Rightarrow> AllocatorKey \<Rightarrow> KVLocker \<Rightarrow> (ID \<times> nat option) \<times> 'b"
  bGet :: "'b \<Rightarrow> AllocatorKey \<Rightarrow> (ID \<times> nat option) \<times> 'b"
  bUpdateKeyIfLocked :: "'b \<Rightarrow> ID \<Rightarrow> AllocatorKey \<Rightarrow> bool \<Rightarrow> KVLocker \<Rightarrow> nat option \<times> 'b"
  bAcquireReference :: "'b \<Rightarrow> ID \<Rightarrow> AllocatorKey \<Rightarrow> KVLocker \<Rightarrow> nat option \<times> 'b"
  bAllocateIDIfLocked ::
    "'b \<Rightarrow> ID \<Rightarrow> AllocatorKey \<Rightarrow> KVLocker \<Rightarrow> (AllocatorKey \<times> nat option) \<times> 'b"
  bRelease :: "'b \<Rightarrow> ID \<Rightarrow> AllocatorKey \<Rightarrow> nat option \<times> 'b"

text \<open>The backend operations a call issues, in order: the observable backend I/O.\<close>

datatype bcall =
    CallLock AllocatorKey
  | CallUnlock KVLocker
  | CallGetIfLocked AllocatorKey KVLocker
  | CallGet AllocatorKey
  | CallUpdateKeyIfLocked ID AllocatorKey bool KVLocker
  | CallAcquireReference ID AllocatorKey KVLocker
  | CallAllocateIDIfLocked ID AllocatorKey KVLocker
  | CallRelease ID AllocatorKey

definition wrap :: "nat option \<Rightarrow> error option" where
  "wrap e = map_option BackendError e"

section \<open>Allocator\<close>

text \<open>
  The \<^verbatim>\<open>Allocator\<close> struct. \<open>min_id\<close> and \<open>max_id\<close> are the fields \<^verbatim>\<open>min\<close> and \<^verbatim>\<open>max\<close>;
  \<open>backend\<close> is the backend's state. Left out: the logger, the key type, the mutexes
  (one goroutine runs at a time here), the remote caches. \<open>calls\<close> is not a field of
  the struct: it records every backend operation issued through this allocator.
\<close>

record 'b Allocator =
  events :: "nat option"
  min_id :: ID
  max_id :: ID
  prefixMask :: ID
  localKeys :: localKeys
  mainCache :: cache
  stopGC :: chan
  initialListDone :: chan
  idPool :: IDPool
  enableMasterKeyProtection :: bool
  disableGC :: bool
  disableAutostart :: bool
  operatorIDManagement :: bool
  maxAllocAttempts :: int
  syncInterval :: int
  cacheValidators :: "nat list"
  backend :: 'b
  calls :: "bcall list"

definition DefaultSyncInterval :: int where
  "DefaultSyncInterval = 5 * 60 * 1000000000"

definition defaultMaxAllocAttempts :: int where
  "defaultMaxAllocAttempts = 16"

subsection \<open>Construction\<close>

datatype 'b AllocatorOption =
    WithBackend 'b
  | WithEvents nat
  | WithMin ID
  | WithMax ID
  | WithPrefixMask ID
  | WithMasterKeyProtection
  | WithOperatorIDManagement
  | WithMaxAllocAttempts int
  | WithoutGC
  | WithoutAutostart
  | WithSyncInterval int
  | WithCacheValidator nat

fun apply_option :: "'b Allocator \<Rightarrow> 'b AllocatorOption \<Rightarrow> 'b Allocator" where
  "apply_option a (WithBackend b) = a\<lparr>backend := b\<rparr>"
| "apply_option a (WithEvents ev) = a\<lparr>events := Some ev\<rparr>"
| "apply_option a (WithMin i) = a\<lparr>min_id := i\<rparr>"
| "apply_option a (WithMax i) = a\<lparr>max_id := i\<rparr>"
| "apply_option a (WithPrefixMask m) = a\<lparr>prefixMask := m\<rparr>"
| "apply_option a WithMasterKeyProtection = a\<lparr>enableMasterKeyProtection := True\<rparr>"
| "apply_option a WithOperatorIDManagement = a\<lparr>operatorIDManagement := True\<rparr>"
| "apply_option a (WithMaxAllocAttempts n) = a\<lparr>maxAllocAttempts := n\<rparr>"
| "apply_option a WithoutGC = a\<lparr>disableGC := True\<rparr>"
| "apply_option a WithoutAutostart = a\<lparr>disableAutostart := True\<rparr>"
| "apply_option a (WithSyncInterval d) = a\<lparr>syncInterval := d\<rparr>"
| "apply_option a (WithCacheValidator v) = a\<lparr>cacheValidators := cacheValidators a @ [v]\<rparr>"

text \<open>The struct literal of \<^verbatim>\<open>NewAllocator\<close>; unnamed fields have Go's zero values.\<close>

definition initial_Allocator :: "'b \<Rightarrow> 'b Allocator" where
  "initial_Allocator b =
     \<lparr>events = None, min_id = 1, max_id = - 1, prefixMask = 0,
      localKeys = newLocalKeys, mainCache = newCache,
      stopGC = OpenChan, initialListDone = NilChan,
      idPool = \<lparr>available = {}, leased = {}\<rparr>,
      enableMasterKeyProtection = False, disableGC = False, disableAutostart = False,
      operatorIDManagement = False, maxAllocAttempts = defaultMaxAllocAttempts,
      syncInterval = DefaultSyncInterval, cacheValidators = [],
      backend = b, calls = []\<rparr>"

text \<open>
  \<^verbatim>\<open>start\<close>: \<^verbatim>\<open>mainCache.start()\<close> hands out the channel that the cache's watcher closes
  when the initial list has been received. The goroutine that starts the local key sync
  is not modelled.
\<close>

definition start :: "'b Allocator \<Rightarrow> 'b Allocator" where
  "start a = a\<lparr>initialListDone := OpenChan\<rparr>"

text \<open>The loop \<^verbatim>\<open>for _, fn := range opts { fn(a) }\<close>.\<close>

definition configured :: "'b \<Rightarrow> 'b AllocatorOption list \<Rightarrow> 'b Allocator" where
  "configured b opts = foldl apply_option (initial_Allocator b) opts"

definition NewAllocator :: "'b \<Rightarrow> 'b AllocatorOption list \<Rightarrow> error + 'b Allocator" where
  "NewAllocator b opts =
     (let a = configured b opts;
          a = a\<lparr>mainCache := newCache\<rparr>
      in if min_id a < 1 then Inl MinimumIDTooSmall
         else if max_id a \<le> min_id a then Inl (MaximumIDNotGreater (max_id a) (min_id a))
         else let a = a\<lparr>idPool := NewIDPool (min_id a) (max_id a)\<rparr>
              in Inr (if \<not> disableAutostart a then start a else a))"

text \<open>
  The watcher of the main cache closes \<^verbatim>\<open>initialListDone\<close> once, on the first full list
  (section 4.3 of the specification). It runs in another goroutine; here it is a step of
  the environment.
\<close>

definition initial_list_received :: "'b Allocator \<Rightarrow> 'b Allocator" where
  "initial_list_received a =
     (if initialListDone a = OpenChan then a\<lparr>initialListDone := ClosedChan\<rparr> else a)"

subsection \<open>Delete\<close>

text \<open>\<^verbatim>\<open>Delete\<close>: \<^verbatim>\<open>close(a.stopGC)\<close>, then \<^verbatim>\<open>a.mainCache.stop()\<close>. A panic ends the call.\<close>

definition Delete :: "'b Allocator \<Rightarrow> panic + 'b Allocator" where
  "Delete a =
     (case close_chan (stopGC a) of
        Inl p \<Rightarrow> Inl p
      | Inr c \<Rightarrow> Inr (a\<lparr>stopGC := c, mainCache := cache_stop (mainCache a)\<rparr>))"

subsection \<open>Backend calls\<close>

text \<open>Each call threads the backend's state and appends itself to \<open>calls\<close>.\<close>

definition call_Lock ::
  "'b Backend \<Rightarrow> AllocatorKey \<Rightarrow> 'b Allocator \<Rightarrow> (KVLocker \<times> nat option) \<times> 'b Allocator" where
  "call_Lock B key a =
     (case bLock B (backend a) key of
        (r, b') \<Rightarrow> (r, a\<lparr>backend := b', calls := calls a @ [CallLock key]\<rparr>))"

definition call_Unlock :: "'b Backend \<Rightarrow> KVLocker \<Rightarrow> 'b Allocator \<Rightarrow> 'b Allocator" where
  "call_Unlock B l a =
     a\<lparr>backend := bUnlock B (backend a) l, calls := calls a @ [CallUnlock l]\<rparr>"

definition call_GetIfLocked ::
  "'b Backend \<Rightarrow> AllocatorKey \<Rightarrow> KVLocker \<Rightarrow> 'b Allocator \<Rightarrow> (ID \<times> nat option) \<times> 'b Allocator"
  where
  "call_GetIfLocked B key l a =
     (case bGetIfLocked B (backend a) key l of
        (r, b') \<Rightarrow> (r, a\<lparr>backend := b', calls := calls a @ [CallGetIfLocked key l]\<rparr>))"

definition call_Get ::
  "'b Backend \<Rightarrow> AllocatorKey \<Rightarrow> 'b Allocator \<Rightarrow> (ID \<times> nat option) \<times> 'b Allocator" where
  "call_Get B key a =
     (case bGet B (backend a) key of
        (r, b') \<Rightarrow> (r, a\<lparr>backend := b', calls := calls a @ [CallGet key]\<rparr>))"

definition call_UpdateKeyIfLocked ::
  "'b Backend \<Rightarrow> ID \<Rightarrow> AllocatorKey \<Rightarrow> bool \<Rightarrow> KVLocker \<Rightarrow> 'b Allocator \<Rightarrow>
     nat option \<times> 'b Allocator" where
  "call_UpdateKeyIfLocked B i key rm l a =
     (case bUpdateKeyIfLocked B (backend a) i key rm l of
        (r, b') \<Rightarrow>
          (r, a\<lparr>backend := b', calls := calls a @ [CallUpdateKeyIfLocked i key rm l]\<rparr>))"

definition call_AcquireReference ::
  "'b Backend \<Rightarrow> ID \<Rightarrow> AllocatorKey \<Rightarrow> KVLocker \<Rightarrow> 'b Allocator \<Rightarrow> nat option \<times> 'b Allocator"
  where
  "call_AcquireReference B i key l a =
     (case bAcquireReference B (backend a) i key l of
        (r, b') \<Rightarrow> (r, a\<lparr>backend := b', calls := calls a @ [CallAcquireReference i key l]\<rparr>))"

definition call_AllocateIDIfLocked ::
  "'b Backend \<Rightarrow> ID \<Rightarrow> AllocatorKey \<Rightarrow> KVLocker \<Rightarrow> 'b Allocator \<Rightarrow>
     (AllocatorKey \<times> nat option) \<times> 'b Allocator" where
  "call_AllocateIDIfLocked B i key l a =
     (case bAllocateIDIfLocked B (backend a) i key l of
        (r, b') \<Rightarrow>
          (r, a\<lparr>backend := b', calls := calls a @ [CallAllocateIDIfLocked i key l]\<rparr>))"

definition call_Release ::
  "'b Backend \<Rightarrow> ID \<Rightarrow> AllocatorKey \<Rightarrow> 'b Allocator \<Rightarrow> nat option \<times> 'b Allocator" where
  "call_Release B i key a =
     (case bRelease B (backend a) i key of
        (r, b') \<Rightarrow> (r, a\<lparr>backend := b', calls := calls a @ [CallRelease i key]\<rparr>))"

subsection \<open>Lookups\<close>

definition GetNoCache ::
  "'b Backend \<Rightarrow> AllocatorKey \<Rightarrow> 'b Allocator \<Rightarrow> (ID \<times> error option) \<times> 'b Allocator" where
  "GetNoCache B key a = (case call_Get B key a of ((i, e), a') \<Rightarrow> ((i, wrap e), a'))"

definition Get ::
  "'b Backend \<Rightarrow> AllocatorKey \<Rightarrow> 'b Allocator \<Rightarrow> (ID \<times> error option) \<times> 'b Allocator" where
  "Get B key a =
     (if cache_get (mainCache a) (GetKey key) \<noteq> NoID
      then ((cache_get (mainCache a) (GetKey key), None), a)
      else GetNoCache B key a)"

definition GetIfLocked ::
  "'b Backend \<Rightarrow> AllocatorKey \<Rightarrow> KVLocker \<Rightarrow> 'b Allocator \<Rightarrow>
     (ID \<times> error option) \<times> 'b Allocator" where
  "GetIfLocked B key l a =
     (if cache_get (mainCache a) (GetKey key) \<noteq> NoID
      then ((cache_get (mainCache a) (GetKey key), None), a)
      else (case call_GetIfLocked B key l a of ((i, e), a') \<Rightarrow> ((i, wrap e), a')))"

subsection \<open>The caller's context, the scheduler and the backoff\<close>

text \<open>
  What a call does not decide itself. \<open>ctx_done s n\<close>: whether \<^verbatim>\<open>ctx.Done()\<close> is ready at
  the \<open>n\<close>-th \<^verbatim>\<open>select\<close> of the call (0 is the wait for the initial list, \<open>Suc i\<close> the
  check after the failed attempt \<open>i\<close>); an already cancelled context has it true at every
  \<open>n\<close>. \<open>select_ctx s\<close>: the case Go's \<^verbatim>\<open>select\<close> takes when both the initial list and the
  context are ready (the language picks one of the ready cases at random).
  \<open>boff_wait s i\<close>: whether \<^verbatim>\<open>boff.Wait(ctx)\<close> after the failed attempt \<open>i\<close> returns an
  error.

  Modelled from the spec: package \<^verbatim>\<open>backoff\<close> is not among the sources. The backoff wait
  suspends the retry loop and fails when the context is cancelled inside it (sections 5
  and 7 of the specification).
\<close>

record call_env =
  ctx_done :: "nat \<Rightarrow> bool"
  select_ctx :: bool
  boff_wait :: "nat \<Rightarrow> bool"

datatype waitres = Proceed | Cancelled | Blocked

text \<open>
  \<^verbatim>\<open>select { case <-a.initialListDone: case <-ctx.Done(): return ... }\<close>. A nil or open
  channel is not ready; with no case ready the call blocks.
\<close>

definition wait_initial :: "chan \<Rightarrow> call_env \<Rightarrow> waitres" where
  "wait_initial c s =
     (if c = ClosedChan \<and> ctx_done s 0 then (if select_ctx s then Cancelled else Proceed)
      else if ctx_done s 0 then Cancelled
      else if c = ClosedChan then Proceed
      else Blocked)"

subsection \<open>lockedAllocate\<close>

text \<open>
  The four return values of \<^verbatim>\<open>lockedAllocate\<close> and \<^verbatim>\<open>Allocate\<close>: the ID, whether it is
  newly allocated, whether this is the first local use, and the error.
\<close>

type_synonym alloc_result = "ID \<times> bool \<times> bool \<times> error option"

definition fail :: "error \<Rightarrow> alloc_result" where
  "fail e = (0, False, False, Some e)"

text \<open>
  \<^verbatim>\<open>selectAvailableID\<close> returns the leased ID ORed with the prefix mask, its decimal
  rendering and the leased ID; the rendering is only used in a message, which carries the
  ID here.
\<close>

definition selectAvailableID :: "'b Allocator \<Rightarrow> (ID \<times> ID) \<times> 'b Allocator" where
  "selectAvailableID a =
     (case LeaseAvailableID (idPool a) of
        (i, p') \<Rightarrow>
          if i \<noteq> NoID then ((i OR prefixMask a, i), a\<lparr>idPool := p'\<rparr>)
          else ((0, 0), a\<lparr>idPool := p'\<rparr>))"

text \<open>The closure \<^verbatim>\<open>releaseKeyAndID\<close> of \<^verbatim>\<open>lockedAllocate\<close>.\<close>

definition releaseKeyAndID :: "string \<Rightarrow> ID \<Rightarrow> 'b Allocator \<Rightarrow> 'b Allocator" where
  "releaseKeyAndID k unmaskedID a =
     a\<lparr>localKeys := snd (localKeys_release (localKeys a) k),
       idPool := idPool_Release (idPool a) unmaskedID\<rparr>"

text \<open>
  The block \<^verbatim>\<open>if value != 0 { ... }\<close>: the key exists globally; take the backend
  reference, on failure give the local reference back.
\<close>

definition lockedAllocate_existing ::
  "'b Backend \<Rightarrow> AllocatorKey \<Rightarrow> KVLocker \<Rightarrow> ID \<Rightarrow> bool \<Rightarrow> 'b Allocator \<Rightarrow>
     alloc_result \<times> 'b Allocator" where
  "lockedAllocate_existing B key l v firstUse a =
     (case call_AcquireReference B v key l a of
        (err, a1) \<Rightarrow>
          (case err of
             Some e \<Rightarrow>
               (fail (CreateSecondaryKeyFailed (GetKey key) (BackendError e)),
                a1\<lparr>localKeys := snd (localKeys_release (localKeys a1) (GetKey key))\<rparr>)
           | None \<Rightarrow>
               ((v, False, firstUse, None),
                a1\<lparr>localKeys := snd (localKeys_verify (localKeys a1) (GetKey key))\<rparr>)))"

text \<open>
  From the re-check \<^verbatim>\<open>GetNoCache\<close> to the end of \<^verbatim>\<open>lockedAllocate\<close>: the ID \<open>i\<close> is
  leased (\<open>unmaskedID\<close> before masking) and reserved locally.
\<close>

definition lockedAllocate_create ::
  "'b Backend \<Rightarrow> AllocatorKey \<Rightarrow> KVLocker \<Rightarrow> ID \<Rightarrow> ID \<Rightarrow> bool \<Rightarrow> 'b Allocator \<Rightarrow>
     alloc_result \<times> 'b Allocator" where
  "lockedAllocate_create B key l i unmaskedID firstUse a =
     (case GetNoCache B key a of
        ((v, err), a1) \<Rightarrow>
          (case err of
             Some e \<Rightarrow> (fail e, releaseKeyAndID (GetKey key) unmaskedID a1)
           | None \<Rightarrow>
               if v \<noteq> 0
               then (fail (FoundMasterKey (GetKey key)), releaseKeyAndID (GetKey key) unmaskedID a1)
               else
                 (case call_AllocateIDIfLocked B i key l a1 of
                    ((key', aerr), a2) \<Rightarrow>
                      (case aerr of
                         Some e \<Rightarrow>
                           (fail (UnableToAllocateID i (KeyString key) (BackendError e)),
                            releaseKeyAndID (GetKey key) unmaskedID a2)
                       | None \<Rightarrow>
                           (case call_AcquireReference B i key' l
                                   (a2\<lparr>idPool := idPool_Use (idPool a2) unmaskedID\<rparr>) of
                              (rerr, a4) \<Rightarrow>
                                (case rerr of
                                   Some e \<Rightarrow>
                                     (fail (SecondaryKeyCreationFailed (GetKey key) (BackendError e)),
                                      releaseKeyAndID (GetKey key) unmaskedID a4)
                                 | None \<Rightarrow>
                                     ((i, True, firstUse, None),
                                      a4\<lparr>localKeys :=
                                           snd (localKeys_verify (localKeys a4) (GetKey key))\<rparr>)))))))"

text \<open>
  The new-allocation path, from \<^verbatim>\<open>selectAvailableID\<close> on: lease an ID, reserve the key
  locally, then \<open>lockedAllocate_create\<close>.
\<close>

definition lockedAllocate_new ::
  "'b Backend \<Rightarrow> AllocatorKey \<Rightarrow> KVLocker \<Rightarrow> 'b Allocator \<Rightarrow> alloc_result \<times> 'b Allocator" where
  "lockedAllocate_new B key l a =
     (case selectAvailableID a of
        ((i, unmaskedID), a1) \<Rightarrow>
          if i = 0 then (fail NoMoreAvailableIDs, a1)
          else
            (case localKeys_allocate (localKeys a1) (GetKey key) key i of
               ((oldID, firstUse, err), lk') \<Rightarrow>
                 (case err of
                    Some e \<Rightarrow>
                      (fail (ReserveLocalKeyFailed (GetKey key) e),
                       a1\<lparr>localKeys := lk', idPool := idPool_Release (idPool a1) unmaskedID\<rparr>)
                  | None \<Rightarrow>
                      if i \<noteq> oldID
                      then (fail (AnotherWriter (GetKey key)),
                            releaseKeyAndID (GetKey key) unmaskedID (a1\<lparr>localKeys := lk'\<rparr>))
                      else lockedAllocate_create B key l i unmaskedID firstUse
                             (a1\<lparr>localKeys := lk'\<rparr>))))"

text \<open>\<^verbatim>\<open>lockedAllocate\<close> after the lock is taken, up to the deferred unlock.\<close>

definition lockedAllocate_locked ::
  "'b Backend \<Rightarrow> AllocatorKey \<Rightarrow> KVLocker \<Rightarrow> 'b Allocator \<Rightarrow> alloc_result \<times> 'b Allocator" where
  "lockedAllocate_locked B key l a =
     (case GetIfLocked B key l a of
        ((v, err), a1) \<Rightarrow>
          (case err of
             Some e \<Rightarrow> (fail e, a1)
           | None \<Rightarrow>
               if v = 0 then
                 (if localKeys_lookupKey (localKeys a1) (GetKey key) \<noteq> 0 then
                    (case call_UpdateKeyIfLocked B
                            (localKeys_lookupKey (localKeys a1) (GetKey key)) key True l a1 of
                       (uerr, a2) \<Rightarrow>
                         (case uerr of
                            Some e \<Rightarrow>
                              (fail (RecreateMasterKeyFailed (KeyString key)
                                       (localKeys_lookupKey (localKeys a1) (GetKey key))
                                       (BackendError e)), a2)
                          | None \<Rightarrow>
                              lockedAllocate_existing B key l
                                (localKeys_lookupKey (localKeys a1) (GetKey key)) False a2))
                  else lockedAllocate_new B key l a1)
               else
                 (case localKeys_allocate (localKeys a1) (GetKey key) key v of
                    ((oldID, firstUse, aerr), lk') \<Rightarrow>
                      (case aerr of
                         Some e \<Rightarrow>
                           (fail (ReserveLocalKeyFailed (GetKey key) e), a1\<lparr>localKeys := lk'\<rparr>)
                       | None \<Rightarrow>
                           lockedAllocate_existing B key l v firstUse
                             (a1\<lparr>localKeys := lk'\<rparr>)))))"

definition lockedAllocate ::
  "'b Backend \<Rightarrow> AllocatorKey \<Rightarrow> 'b Allocator \<Rightarrow> alloc_result \<times> 'b Allocator" where
  "lockedAllocate B key a =
     (case call_Lock B key a of
        ((l, err), a1) \<Rightarrow>
          (case err of
             Some e \<Rightarrow> (fail (BackendError e), a1)
           | None \<Rightarrow>
               (case lockedAllocate_locked B key l a1 of
                  (r, a2) \<Rightarrow> (r, call_Unlock B l a2))))"

subsection \<open>GetWithRetry, Allocate, Release\<close>

text \<open>The closure \<^verbatim>\<open>getID\<close> of \<^verbatim>\<open>GetWithRetry\<close>.\<close>

definition getID ::
  "'b Backend \<Rightarrow> AllocatorKey \<Rightarrow> 'b Allocator \<Rightarrow> (ID \<times> error option) \<times> 'b Allocator" where
  "getID B key a =
     (case Get B key a of
        ((i, err), a1) \<Rightarrow>
          if err \<noteq> None then ((NoID, err), a1)
          else if i = NoID then ((NoID, Some (IdentityNotFound (KeyString key))), a1)
          else ((i, None), a1))"

text \<open>
  The loop \<^verbatim>\<open>for attempt := range a.maxAllocAttempts\<close> of \<^verbatim>\<open>GetWithRetry\<close>: \<open>n\<close>
  iterations are left, \<open>attempt\<close> is the loop variable, \<open>err\<close> the variable \<^verbatim>\<open>err\<close>.
\<close>

fun GetWithRetry_loop ::
  "'b Backend \<Rightarrow> call_env \<Rightarrow> AllocatorKey \<Rightarrow> nat \<Rightarrow> nat \<Rightarrow> error option \<Rightarrow> 'b Allocator \<Rightarrow>
     (ID \<times> error option) \<times> 'b Allocator" where
  "GetWithRetry_loop B s key 0 attempt err a = ((NoID, err), a)"
| "GetWithRetry_loop B s key (Suc n) attempt err a =
     (case getID B key a of
        ((i, err'), a1) \<Rightarrow>
          if err' = None then ((i, None), a1)
          else if ctx_done s (Suc attempt) then ((NoID, Some KeyAllocationCancelled), a1)
          else if boff_wait s attempt
          then ((NoID, Some (TimedOutWaiting (GetKey key) BackoffCancelled)), a1)
          else GetWithRetry_loop B s key n (Suc attempt) err' a1)"

text \<open>A range over an \<^verbatim>\<open>int\<close> that is zero or negative runs no iteration.\<close>

definition GetWithRetry ::
  "'b Backend \<Rightarrow> call_env \<Rightarrow> AllocatorKey \<Rightarrow> 'b Allocator \<Rightarrow>
     (ID \<times> error option) \<times> 'b Allocator" where
  "GetWithRetry B s key a = GetWithRetry_loop B s key (nat (maxAllocAttempts a)) 0 None a"

text \<open>The loop of \<^verbatim>\<open>Allocate\<close>, in the same way.\<close>

fun Allocate_loop ::
  "'b Backend \<Rightarrow> call_env \<Rightarrow> AllocatorKey \<Rightarrow> nat \<Rightarrow> nat \<Rightarrow> error option \<Rightarrow> 'b Allocator \<Rightarrow>
     alloc_result \<times> 'b Allocator" where
  "Allocate_loop B s key 0 attempt err a = ((0, False, False, err), a)"
| "Allocate_loop B s key (Suc n) attempt err a =
     (case localKeys_use (localKeys a) (GetKey key) of
        (val, lk') \<Rightarrow>
          if val \<noteq> NoID
          then ((val, False, False, None),
                a\<lparr>localKeys := lk', mainCache := cache_insert (mainCache a) key val\<rparr>)
          else
            (case lockedAllocate B key (a\<lparr>localKeys := lk'\<rparr>) of
               ((v, isNew, firstUse, err'), a2) \<Rightarrow>
                 if err' = None
                 then ((v, isNew, firstUse, None),
                       a2\<lparr>mainCache := cache_insert (mainCache a2) key v\<rparr>)
                 else if ctx_done s (Suc attempt) then (fail KeyAllocationCancelled, a2)
                 else if boff_wait s attempt then (fail BackoffCancelled, a2)
                 else Allocate_loop B s key n (Suc attempt) err' a2))"

text \<open>\<open>None\<close>: the call blocks in the wait for the initial list.\<close>

definition Allocate ::
  "'b Backend \<Rightarrow> call_env \<Rightarrow> AllocatorKey \<Rightarrow> 'b Allocator \<Rightarrow>
     (alloc_result \<times> 'b Allocator) option" where
  "Allocate B s key a =
     (case wait_initial (initialListDone a) s of
        Blocked \<Rightarrow> None
      | Cancelled \<Rightarrow> Some (fail AllocationCancelled, a)
      | Proceed \<Rightarrow>
          if operatorIDManagement a
          then (case GetWithRetry B s key a of
                  ((i, err), a1) \<Rightarrow> Some ((i, False, False, err), a1))
          else Some (Allocate_loop B s key (nat (maxAllocAttempts a)) 0 None a))"

text \<open>
  \<^verbatim>\<open>Release\<close> returns \<^verbatim>\<open>(lastUse, err)\<close>; the error of \<^verbatim>\<open>backend.Release\<close> is dropped, as
  in the source.
\<close>

definition Release ::
  "'b Backend \<Rightarrow> call_env \<Rightarrow> AllocatorKey \<Rightarrow> 'b Allocator \<Rightarrow>
     ((bool \<times> error option) \<times> 'b Allocator) option" where
  "Release B s key a =
     (if operatorIDManagement a then Some ((False, None), a)
      else
        (case wait_initial (initialListDone a) s of
           Blocked \<Rightarrow> None
         | Cancelled \<Rightarrow> Some ((False, Some ReleaseCancelled), a)
         | Proceed \<Rightarrow>
             (case localKeys_release (localKeys a) (GetKey key) of
                ((lastUse, i, err), lk') \<Rightarrow>
                  if err \<noteq> None then Some ((lastUse, err), a\<lparr>localKeys := lk'\<rparr>)
                  else if lastUse
                  then Some ((lastUse, err), snd (call_Release B i key (a\<lparr>localKeys := lk'\<rparr>)))
                  else Some ((lastUse, err), a\<lparr>localKeys := lk'\<rparr>))))"

section \<open>The lifetime of an instance\<close>

text \<open>
  The states an allocator goes through: \<open>lifetime B a0 a\<close> holds when \<open>a\<close> is reached from
  \<open>a0\<close> by calls of \<^verbatim>\<open>Allocate\<close>, \<^verbatim>\<open>Release\<close> and \<^verbatim>\<open>Delete\<close> that return, by the
  watcher's report of the initial list, and by the one \<^verbatim>\<open>start\<close> of an instance built
  without autostart.
\<close>

inductive lifetime :: "'b Backend \<Rightarrow> 'b Allocator \<Rightarrow> 'b Allocator \<Rightarrow> bool" for B a0 where
  fresh: "lifetime B a0 a0"
| listed: "lifetime B a0 a \<Longrightarrow> lifetime B a0 (initial_list_received a)"
| started: "lifetime B a0 a \<Longrightarrow> initialListDone a = NilChan \<Longrightarrow> lifetime B a0 (start a)"
| allocated: "lifetime B a0 a \<Longrightarrow> Allocate B s key a = Some (r, a') \<Longrightarrow> lifetime B a0 a'"
| released: "lifetime B a0 a \<Longrightarrow> Release B s key a = Some (q, a') \<Longrightarrow> lifetime B a0 a'"
| deleted: "lifetime B a0 a \<Longrightarrow> Delete a = Inr a' \<Longrightarrow> lifetime B a0 a'"

text \<open>The fields no operation writes after construction, and the two channels.\<close>

definition config :: "'b Allocator \<Rightarrow> ID \<times> ID \<times> ID \<times> bool \<times> int \<times> chan \<times> chan" where
  "config a =
     (min_id a, max_id a, prefixMask a, operatorIDManagement a, maxAllocAttempts a,
      stopGC a, initialListDone a)"

text \<open>
  Well-formed local tables: every local entry has an ID other than \<open>NoID\<close> and a positive
  refcount; no ID of the pool is both available and leased, and \<open>NoID\<close> is not available.
\<close>

definition lk_wf :: "localKeys \<Rightarrow> bool" where
  "lk_wf lk = (\<forall>k e. lk k = Some e \<longrightarrow> lk_id e \<noteq> NoID \<and> 0 < lk_refcount e)"

definition pool_wf :: "IDPool \<Rightarrow> bool" where
  "pool_wf p = (available p \<inter> leased p = {} \<and> NoID \<notin> available p)"

definition tables_wf :: "'b Allocator \<Rightarrow> bool" where
  "tables_wf a = (lk_wf (localKeys a) \<and> pool_wf (idPool a))"

text \<open>
  What holds of every state of an instance built by \<^verbatim>\<open>NewAllocator\<close>: the range, the
  well-formed tables, and that local entries exist only where \<^verbatim>\<open>Allocate\<close> can have
  made them.
\<close>

definition allocator_inv :: "'b Allocator \<Rightarrow> bool" where
  "allocator_inv a =
     (1 \<le> min_id a \<and> min_id a < max_id a \<and>
      lk_wf (localKeys a) \<and> pool_wf (idPool a) \<and>
      (stopGC a = OpenChan \<or> stopGC a = ClosedChan) \<and>
      (localKeys a = Map.empty \<or>
       (\<not> operatorIDManagement a \<and> 0 < maxAllocAttempts a \<and> initialListDone a = ClosedChan)))"

text \<open>The local reference count of an encoded key; 0 when the key has no entry.\<close>

definition refcnt :: "'b Allocator \<Rightarrow> string \<Rightarrow> nat" where
  "refcnt a k = (case localKeys a k of None \<Rightarrow> 0 | Some e \<Rightarrow> lk_refcount e)"

text \<open>
  One \<^verbatim>\<open>Allocate\<close> of the key per element of the list, each under its own context;
  the results are collected in order. \<open>None\<close> when a call blocks.
\<close>

fun Allocate_seq ::
  "'b Backend \<Rightarrow> call_env list \<Rightarrow> AllocatorKey \<Rightarrow> 'b Allocator \<Rightarrow>
     (alloc_result list \<times> 'b Allocator) option" where
  "Allocate_seq B [] key a = Some ([], a)"
| "Allocate_seq B (s # ss) key a =
     (case Allocate B s key a of
        None \<Rightarrow> None
      | Some (r, a1) \<Rightarrow>
          (case Allocate_seq B ss key a1 of
             None \<Rightarrow> None
           | Some (rs, a2) \<Rightarrow> Some (r # rs, a2)))"

text \<open>The same for \<^verbatim>\<open>Release\<close>.\<close>

fun Release_seq ::
  "'b Backend \<Rightarrow> call_env list \<Rightarrow> AllocatorKey \<Rightarrow> 'b Allocator \<Rightarrow>
     ((bool \<times> error option) list \<times> 'b Allocator) option" where
  "Release_seq B [] key a = Some ([], a)"
| "Release_seq B (s # ss) key a =
     (case Release B s key a of
        None \<Rightarrow> None
      | Some (q, a1) \<Rightarrow>
          (case Release_seq B ss key a1 of
             None \<Rightarrow> None
           | Some (qs, a2) \<Rightarrow> Some (q # qs, a2)))"



section \<open>Concrete backends, contexts and keys\<close>

text \<open>
  An in-memory backend: its state is the list of master keys; every operation succeeds
  and pays no attention to the context.
\<close>

definition memBackend :: "((string \<times> ID) list) Backend" where
  "memBackend =
     \<lparr>bLock = (\<lambda>b key. ((0, None), b)),
      bUnlock = (\<lambda>b l. b),
      bGetIfLocked =
        (\<lambda>b key l. ((case map_of b (GetKey key) of None \<Rightarrow> NoID | Some i \<Rightarrow> i, None), b)),
      bGet = (\<lambda>b key. ((case map_of b (GetKey key) of None \<Rightarrow> NoID | Some i \<Rightarrow> i, None), b)),
      bUpdateKeyIfLocked = (\<lambda>b i key rm l. (None, b)),
      bAcquireReference = (\<lambda>b i key l. (None, b)),
      bAllocateIDIfLocked = (\<lambda>b i key l. ((key, None), (GetKey key, i) # b)),
      bRelease = (\<lambda>b i key. (None, b))\<rparr>"

text \<open>
  A backend shared with other nodes: its state counts the lookups; the first finds
  nothing, every later one finds the master key with ID 2 that another node has created
  meanwhile.
\<close>

definition racingBackend :: "nat Backend" where
  "racingBackend =
     \<lparr>bLock = (\<lambda>b key. ((0, None), b)),
      bUnlock = (\<lambda>b l. b),
      bGetIfLocked = (\<lambda>b key l. ((if b = 0 then NoID else 2, None), Suc b)),
      bGet = (\<lambda>b key. ((if b = 0 then NoID else 2, None), Suc b)),
      bUpdateKeyIfLocked = (\<lambda>b i key rm l. (None, b)),
      bAcquireReference = (\<lambda>b i key l. (None, b)),
      bAllocateIDIfLocked = (\<lambda>b i key l. ((key, None), b)),
      bRelease = (\<lambda>b i key. (None, b))\<rparr>"

text \<open>A backend whose every operation but the lock fails with the code 7.\<close>

definition failingBackend :: "unit Backend" where
  "failingBackend =
     \<lparr>bLock = (\<lambda>b key. ((0, None), b)),
      bUnlock = (\<lambda>b l. b),
      bGetIfLocked = (\<lambda>b key l. ((NoID, Some 7), b)),
      bGet = (\<lambda>b key. ((NoID, Some 7), b)),
      bUpdateKeyIfLocked = (\<lambda>b i key rm l. (Some 7, b)),
      bAcquireReference = (\<lambda>b i key l. (Some 7, b)),
      bAllocateIDIfLocked = (\<lambda>b i key l. ((key, Some 7), b)),
      bRelease = (\<lambda>b i key. (Some 7, b))\<rparr>"

text \<open>A backend that holds no key and creates none: lookups find nothing.\<close>

definition emptyBackend :: "unit Backend" where
  "emptyBackend =
     failingBackend\<lparr>bGetIfLocked := (\<lambda>b key l. ((NoID, None), b)),
                    bGet := (\<lambda>b key. ((NoID, None), b))\<rparr>"

text \<open>A backend that creates master keys but refuses every reference with the code 7.\<close>

definition noRefBackend :: "((string \<times> ID) list) Backend" where
  "noRefBackend = memBackend\<lparr>bAcquireReference := (\<lambda>b i key l. (Some 7, b))\<rparr>"

text \<open>
  An in-memory backend that also keeps the references of this node: its state is the
  list of master keys and the list of references held, one per ID and key;
  \<^verbatim>\<open>AcquireReference\<close> adds the reference, \<^verbatim>\<open>Release\<close> drops it.
\<close>

definition refBackend :: "((string \<times> ID) list \<times> (ID \<times> string) list) Backend" where
  "refBackend =
     \<lparr>bLock = (\<lambda>b key. ((0, None), b)),
      bUnlock = (\<lambda>b l. b),
      bGetIfLocked =
        (\<lambda>b key l. ((case map_of (fst b) (GetKey key) of None \<Rightarrow> NoID | Some i \<Rightarrow> i, None), b)),
      bGet =
        (\<lambda>b key. ((case map_of (fst b) (GetKey key) of None \<Rightarrow> NoID | Some i \<Rightarrow> i, None), b)),
      bUpdateKeyIfLocked = (\<lambda>b i key rm l. (None, b)),
      bAcquireReference = (\<lambda>b i key l. (None, (fst b, List.insert (i, GetKey key) (snd b)))),
      bAllocateIDIfLocked = (\<lambda>b i key l. ((key, None), ((GetKey key, i) # fst b, snd b))),
      bRelease = (\<lambda>b i key. (None, (fst b, removeAll (i, GetKey key) (snd b))))\<rparr>"

text \<open>A context that is never cancelled, and one cancelled before the call.\<close>

definition live :: call_env where
  "live = \<lparr>ctx_done = (\<lambda>n. False), select_ctx = False, boff_wait = (\<lambda>n. False)\<rparr>"

definition cancelled :: call_env where
  "cancelled = \<lparr>ctx_done = (\<lambda>n. True), select_ctx = False, boff_wait = (\<lambda>n. True)\<rparr>"

text \<open>
  \<open>node b opts\<close>: the instance \<^verbatim>\<open>NewAllocator\<close> builds over the backend state \<open>b\<close> with the
  options \<open>opts\<close>, once its watcher has received the initial list. \<open>exhausted b\<close>: such
  an instance with the range \<open>[1,2]\<close> and two attempts, when the watcher has reported both
  IDs in use by other keys: the cache holds the two mappings and the pool has no
  available ID.
\<close>

definition node :: "'b \<Rightarrow> 'b AllocatorOption list \<Rightarrow> 'b Allocator" where
  "node b opts = initial_list_received (projr (NewAllocator b opts))"

definition foo :: AllocatorKey where
  "foo = \<lparr>GetKey = ''foo'', KeyString = ''foo'', KeyValue = 0\<rparr>"

definition bar :: AllocatorKey where
  "bar = \<lparr>GetKey = ''bar'', KeyString = ''bar'', KeyValue = 0\<rparr>"

definition baz :: AllocatorKey where
  "baz = \<lparr>GetKey = ''baz'', KeyString = ''baz'', KeyValue = 0\<rparr>"

definition exhausted :: "'b \<Rightarrow> 'b Allocator" where
  "exhausted b =
     (node b [WithMax 2, WithMaxAllocAttempts 2])
       \<lparr>idPool := \<lparr>available = {}, leased = {}\<rparr>,
        mainCache := cache_insert (cache_insert newCache bar 1) baz 2\<rparr>"

text \<open>
  An instance with the range \<open>[1,2]\<close> in which a local writer holds the key \<open>foo\<close> under
  the ID 2, while the pool has the ID 1 available.
\<close>

definition foo_held :: "((string \<times> ID) list) Allocator" where
  "foo_held =
     (node [] [WithMax 2, WithMaxAllocAttempts 3])
       \<lparr>localKeys :=
          [''foo'' \<mapsto> \<lparr>lk_key = ''foo'', lk_id = 2, lk_refcount = 1, lk_verified = True\<rparr>],
        idPool := \<lparr>available = {1}, leased = {}\<rparr>\<rparr>"

section \<open>A nil error comes with an ID\<close>

lemma lockedAllocate_existing_ok:
  "lockedAllocate_existing B key l v fu a = ((i, n, f, None), a') \<Longrightarrow> i = v"
  by (auto simp: lockedAllocate_existing_def fail_def split: prod.splits option.splits)

lemma lockedAllocate_create_ok:
  "lockedAllocate_create B key l i u fu a = ((j, n, f, None), a') \<Longrightarrow> j = i"
  by (auto simp: lockedAllocate_create_def fail_def split: prod.splits option.splits if_splits)

lemma lockedAllocate_new_ok:
  "lockedAllocate_new B key l a = ((j, n, f, None), a') \<Longrightarrow> j \<noteq> 0"
  by (auto simp: lockedAllocate_new_def fail_def dest: lockedAllocate_create_ok
      split: prod.splits option.splits if_splits)

lemma lockedAllocate_locked_ok:
  "lockedAllocate_locked B key l a = ((j, n, f, None), a') \<Longrightarrow> j \<noteq> 0"
  by (auto simp: lockedAllocate_locked_def fail_def
      dest: lockedAllocate_new_ok lockedAllocate_existing_ok
      split: prod.splits option.splits if_splits)

lemma lockedAllocate_ok:
  "lockedAllocate B key a = ((j, n, f, None), a') \<Longrightarrow> j \<noteq> 0"
  by (auto simp: lockedAllocate_def fail_def dest: lockedAllocate_locked_ok
      split: prod.splits option.splits if_splits)

lemma Allocate_loop_ok:
  "Allocate_loop B s key n attempt err a = ((i, nw, f, None), a') \<Longrightarrow> err \<noteq> None \<or> 0 < n \<Longrightarrow> i \<noteq> 0"
proof (induction n arbitrary: attempt err a)
  case 0
  then show ?case by simp
next
  case (Suc n)
  then show ?case
    by (auto simp: fail_def dest: lockedAllocate_ok split: prod.splits if_splits)
qed

lemma getID_ok: "getID B key a = ((i, None), a') \<Longrightarrow> i \<noteq> 0"
  by (auto simp: getID_def split: prod.splits if_splits)

lemma GetWithRetry_loop_ok:
  "GetWithRetry_loop B s key n attempt err a = ((i, None), a') \<Longrightarrow> err \<noteq> None \<or> 0 < n \<Longrightarrow> i \<noteq> 0"
proof (induction n arbitrary: attempt err a)
  case 0
  then show ?case by simp
next
  case (Suc n)
  then show ?case
    by (auto simp: dest: getID_ok split: prod.splits if_splits)
qed

lemma Allocate_nil_error_nonzero:
  "0 < maxAllocAttempts a \<Longrightarrow> Allocate B s key a = Some ((i, nw, f, None), a') \<Longrightarrow> i \<noteq> NoID"
  by (auto simp: Allocate_def GetWithRetry_def fail_def dest: Allocate_loop_ok GetWithRetry_loop_ok
      split: waitres.splits if_splits prod.splits)

section \<open>Frame properties\<close>

subsection \<open>Configuration is never written\<close>

lemmas call_defs =
  call_Lock_def call_Unlock_def call_GetIfLocked_def call_Get_def call_UpdateKeyIfLocked_def
  call_AcquireReference_def call_AllocateIDIfLocked_def call_Release_def

lemma config_update [simp]:
  "config (a\<lparr>localKeys := lk\<rparr>) = config a"
  "config (a\<lparr>idPool := p\<rparr>) = config a"
  "config (a\<lparr>mainCache := c\<rparr>) = config a"
  "config (a\<lparr>backend := b\<rparr>) = config a"
  "config (a\<lparr>calls := cs\<rparr>) = config a"
  by (simp_all add: config_def)

lemma config_calls [simp]:
  "config (snd (call_Lock B key a)) = config a"
  "config (call_Unlock B l a) = config a"
  "config (snd (call_GetIfLocked B key l a)) = config a"
  "config (snd (call_Get B key a)) = config a"
  "config (snd (call_UpdateKeyIfLocked B i key rm l a)) = config a"
  "config (snd (call_AcquireReference B i key l a)) = config a"
  "config (snd (call_AllocateIDIfLocked B i key l a)) = config a"
  "config (snd (call_Release B i key a)) = config a"
  by (simp_all add: call_defs case_prod_beta)

lemma config_lookups [simp]:
  "config (snd (GetNoCache B key a)) = config a"
  "config (snd (Get B key a)) = config a"
  "config (snd (GetIfLocked B key l a)) = config a"
  "config (snd (getID B key a)) = config a"
  by (simp_all add: GetNoCache_def Get_def GetIfLocked_def getID_def case_prod_beta)

lemma config_helpers [simp]:
  "config (snd (selectAvailableID a)) = config a"
  "config (releaseKeyAndID k u a) = config a"
  by (simp_all add: selectAvailableID_def releaseKeyAndID_def case_prod_beta)

lemma lockedAllocate_existing_config [simp]:
  "config (snd (lockedAllocate_existing B key l v fu a)) = config a"
  by (simp add: lockedAllocate_existing_def case_prod_beta split: option.splits)

lemma lockedAllocate_create_config [simp]:
  "config (snd (lockedAllocate_create B key l i u fu a)) = config a"
  by (simp add: lockedAllocate_create_def case_prod_beta split: option.splits)

lemma lockedAllocate_new_config [simp]:
  "config (snd (lockedAllocate_new B key l a)) = config a"
  by (simp add: lockedAllocate_new_def case_prod_beta split: option.splits)

lemma lockedAllocate_locked_config [simp]:
  "config (snd (lockedAllocate_locked B key l a)) = config a"
  by (simp add: lockedAllocate_locked_def case_prod_beta split: option.splits)

lemma lockedAllocate_config [simp]: "config (snd (lockedAllocate B key a)) = config a"
  by (simp add: lockedAllocate_def case_prod_beta split: option.splits)

lemma Allocate_loop_config [simp]:
  "config (snd (Allocate_loop B s key n attempt err a)) = config a"
  by (induction n arbitrary: attempt err a) (simp_all add: case_prod_beta)

lemma GetWithRetry_loop_config [simp]:
  "config (snd (GetWithRetry_loop B s key n attempt err a)) = config a"
  by (induction n arbitrary: attempt err a) (simp_all add: case_prod_beta)

lemma Allocate_config: "Allocate B s key a = Some ra \<Longrightarrow> config (snd ra) = config a"
  by (auto simp: Allocate_def GetWithRetry_def case_prod_beta split: waitres.splits if_splits)

lemma Release_config: "Release B s key a = Some qa \<Longrightarrow> config (snd qa) = config a"
  by (auto simp: Release_def case_prod_beta split: waitres.splits if_splits)

subsection \<open>Backend calls leave the local tables alone\<close>

lemma locals_calls [simp]:
  "localKeys (snd (call_Lock B key a)) = localKeys a"
  "idPool (snd (call_Lock B key a)) = idPool a"
  "mainCache (snd (call_Lock B key a)) = mainCache a"
  "localKeys (call_Unlock B l a) = localKeys a"
  "idPool (call_Unlock B l a) = idPool a"
  "mainCache (call_Unlock B l a) = mainCache a"
  "localKeys (snd (call_GetIfLocked B key l a)) = localKeys a"
  "idPool (snd (call_GetIfLocked B key l a)) = idPool a"
  "mainCache (snd (call_GetIfLocked B key l a)) = mainCache a"
  "localKeys (snd (call_Get B key a)) = localKeys a"
  "idPool (snd (call_Get B key a)) = idPool a"
  "mainCache (snd (call_Get B key a)) = mainCache a"
  "localKeys (snd (call_UpdateKeyIfLocked B i key rm l a)) = localKeys a"
  "idPool (snd (call_UpdateKeyIfLocked B i key rm l a)) = idPool a"
  "mainCache (snd (call_UpdateKeyIfLocked B i key rm l a)) = mainCache a"
  "localKeys (snd (call_AcquireReference B i key l a)) = localKeys a"
  "idPool (snd (call_AcquireReference B i key l a)) = idPool a"
  "mainCache (snd (call_AcquireReference B i key l a)) = mainCache a"
  "localKeys (snd (call_AllocateIDIfLocked B i key l a)) = localKeys a"
  "idPool (snd (call_AllocateIDIfLocked B i key l a)) = idPool a"
  "mainCache (snd (call_AllocateIDIfLocked B i key l a)) = mainCache a"
  "localKeys (snd (call_Release B i key a)) = localKeys a"
  "idPool (snd (call_Release B i key a)) = idPool a"
  "mainCache (snd (call_Release B i key a)) = mainCache a"
  by (simp_all add: call_defs case_prod_beta)

lemma locals_lookups [simp]:
  "localKeys (snd (GetNoCache B key a)) = localKeys a"
  "idPool (snd (GetNoCache B key a)) = idPool a"
  "mainCache (snd (GetNoCache B key a)) = mainCache a"
  "localKeys (snd (Get B key a)) = localKeys a"
  "idPool (snd (Get B key a)) = idPool a"
  "mainCache (snd (Get B key a)) = mainCache a"
  "localKeys (snd (GetIfLocked B key l a)) = localKeys a"
  "idPool (snd (GetIfLocked B key l a)) = idPool a"
  "mainCache (snd (GetIfLocked B key l a)) = mainCache a"
  "localKeys (snd (getID B key a)) = localKeys a"
  "idPool (snd (getID B key a)) = idPool a"
  "mainCache (snd (getID B key a)) = mainCache a"
  by (simp_all add: GetNoCache_def Get_def GetIfLocked_def getID_def case_prod_beta)

lemma GetWithRetry_loop_locals [simp]:
  "localKeys (snd (GetWithRetry_loop B s key n attempt err a)) = localKeys a"
  "idPool (snd (GetWithRetry_loop B s key n attempt err a)) = idPool a"
  "mainCache (snd (GetWithRetry_loop B s key n attempt err a)) = mainCache a"
  by (induction n arbitrary: attempt err a) (simp_all add: case_prod_beta)

subsection \<open>Well-formed tables\<close>

lemma lk_wf_allocate:
  "lk_wf lk \<Longrightarrow> i \<noteq> NoID \<Longrightarrow> lk_wf (snd (localKeys_allocate lk k key i))"
  by (auto simp: lk_wf_def localKeys_allocate_def split: option.splits)

lemma lk_wf_use: "lk_wf lk \<Longrightarrow> lk_wf (snd (localKeys_use lk k))"
  by (auto simp: lk_wf_def localKeys_use_def split: option.splits)

lemma lk_wf_release: "lk_wf lk \<Longrightarrow> lk_wf (snd (localKeys_release lk k))"
  by (auto simp: lk_wf_def localKeys_release_def split: option.splits)

lemma lk_wf_verify: "lk_wf lk \<Longrightarrow> lk_wf (snd (localKeys_verify lk k))"
  by (auto simp: lk_wf_def localKeys_verify_def split: option.splits)

lemma pool_wf_Lease: "pool_wf p \<Longrightarrow> pool_wf (snd (LeaseAvailableID p))"
  by (auto simp: pool_wf_def LeaseAvailableID_def)

lemma pool_wf_Use: "pool_wf p \<Longrightarrow> pool_wf (idPool_Use p i)"
  by (auto simp: pool_wf_def idPool_Use_def)

lemma pool_wf_Release: "pool_wf p \<Longrightarrow> i \<noteq> NoID \<Longrightarrow> pool_wf (idPool_Release p i)"
  by (auto simp: pool_wf_def idPool_Release_def)

lemmas wf_intros = lk_wf_allocate lk_wf_use lk_wf_release lk_wf_verify
  pool_wf_Lease pool_wf_Use pool_wf_Release

lemma lockedAllocate_existing_wf:
  "tables_wf a \<Longrightarrow> tables_wf (snd (lockedAllocate_existing B key l v fu a))"
  by (simp add: tables_wf_def lockedAllocate_existing_def case_prod_beta wf_intros
      split: option.splits)

lemma lockedAllocate_create_wf:
  "tables_wf a \<Longrightarrow> u \<noteq> NoID \<Longrightarrow> tables_wf (snd (lockedAllocate_create B key l i u fu a))"
  by (simp add: tables_wf_def lockedAllocate_create_def releaseKeyAndID_def case_prod_beta
      wf_intros split: option.splits)

lemma selectAvailableID_wf:
  "tables_wf a \<Longrightarrow> tables_wf (snd (selectAvailableID a))"
  by (simp add: tables_wf_def selectAvailableID_def case_prod_beta wf_intros)

lemma selectAvailableID_unmasked:
  "fst (fst (selectAvailableID a)) \<noteq> NoID \<Longrightarrow> snd (fst (selectAvailableID a)) \<noteq> NoID"
  by (simp add: selectAvailableID_def case_prod_beta split: if_splits)

lemma lockedAllocate_new_wf:
  "tables_wf a \<Longrightarrow> tables_wf (snd (lockedAllocate_new B key l a))"
proof -
  assume wf: "tables_wf a"
  let ?a1 = "snd (selectAvailableID a)"
  let ?i = "fst (fst (selectAvailableID a))"
  let ?u = "snd (fst (selectAvailableID a))"
  have wf1: "tables_wf ?a1" using wf by (rule selectAvailableID_wf)
  show ?thesis
  proof (cases "?i = 0")
    case True
    with wf1 show ?thesis by (simp add: lockedAllocate_new_def case_prod_beta)
  next
    case False
    then have u: "?u \<noteq> 0" by (rule selectAvailableID_unmasked)
    have up: "tables_wf (?a1\<lparr>localKeys := snd (localKeys_allocate (localKeys ?a1) (GetKey key) key ?i)\<rparr>)"
      using wf1 False by (simp add: tables_wf_def wf_intros)
    have rel: "tables_wf (?a1\<lparr>localKeys := lk, idPool := idPool_Release (idPool ?a1) ?u\<rparr>)"
      if "lk_wf lk" for lk
      using wf1 u that by (simp add: tables_wf_def wf_intros)
    have rel2: "tables_wf (releaseKeyAndID (GetKey key) ?u a2)" if "tables_wf a2"
      for a2 :: "'a Allocator"
      using that u by (simp add: tables_wf_def releaseKeyAndID_def wf_intros)
    have cr: "tables_wf (snd (lockedAllocate_create B key l ?i ?u fu a2))" if "tables_wf a2"
      for a2 :: "'a Allocator" and fu
      using that u by (rule lockedAllocate_create_wf)
    from up have lkwf: "lk_wf (snd (localKeys_allocate (localKeys ?a1) (GetKey key) key ?i))"
      by (simp add: tables_wf_def)
    show ?thesis
      using False up rel [OF lkwf] rel2 [OF up] cr [OF up]
      by (simp add: lockedAllocate_new_def case_prod_beta split: option.splits)
  qed
qed

lemma lockedAllocate_locked_wf:
  "tables_wf a \<Longrightarrow> tables_wf (snd (lockedAllocate_locked B key l a))"
proof -
  assume wf: "tables_wf a"
  let ?a1 = "snd (GetIfLocked B key l a)"
  have wf1: "tables_wf ?a1" using wf by (simp add: tables_wf_def)
  have up: "v \<noteq> 0 \<Longrightarrow>
      tables_wf (?a1\<lparr>localKeys := snd (localKeys_allocate (localKeys ?a1) (GetKey key) key v)\<rparr>)"
    for v
    using wf1 by (simp add: tables_wf_def wf_intros)
  have upd: "tables_wf (snd (call_UpdateKeyIfLocked B i key rm l ?a1))" for i rm
    using wf1 by (simp add: tables_wf_def)
  show ?thesis
    using wf1 up upd
    by (auto simp: lockedAllocate_locked_def case_prod_beta
        intro!: lockedAllocate_existing_wf lockedAllocate_new_wf
        split: option.splits)
qed

lemma lockedAllocate_wf: "tables_wf a \<Longrightarrow> tables_wf (snd (lockedAllocate B key a))"
proof -
  assume wf: "tables_wf a"
  have "tables_wf (snd (call_Lock B key a))" using wf by (simp add: tables_wf_def)
  then have "tables_wf (snd (lockedAllocate_locked B key l (snd (call_Lock B key a))))" for l
    by (rule lockedAllocate_locked_wf)
  then show ?thesis
    using wf by (auto simp: lockedAllocate_def case_prod_beta tables_wf_def split: option.splits)
qed

lemma tables_wf_update [simp]:
  "tables_wf (a\<lparr>mainCache := c\<rparr>) = tables_wf a"
  "tables_wf (a\<lparr>backend := b\<rparr>) = tables_wf a"
  "tables_wf (a\<lparr>calls := cs\<rparr>) = tables_wf a"
  by (simp_all add: tables_wf_def)

lemma Allocate_loop_wf:
  "tables_wf a \<Longrightarrow> tables_wf (snd (Allocate_loop B s key n attempt err a))"
proof (induction n arbitrary: attempt err a)
  case 0
  then show ?case by simp
next
  case (Suc n)
  let ?a1 = "a\<lparr>localKeys := snd (localKeys_use (localKeys a) (GetKey key))\<rparr>"
  have wf1: "tables_wf ?a1" using Suc.prems by (simp add: tables_wf_def wf_intros)
  then have wf2: "tables_wf (snd (lockedAllocate B key ?a1))" by (rule lockedAllocate_wf)
  have wf3: "tables_wf (snd (Allocate_loop B s key n (Suc attempt) e (snd (lockedAllocate B key ?a1))))"
    for e using wf2 by (rule Suc.IH)
  show ?case
    using wf1 wf2 wf3 by (simp add: case_prod_beta)
qed

lemma Allocate_wf: "Allocate B s key a = Some ra \<Longrightarrow> tables_wf a \<Longrightarrow> tables_wf (snd ra)"
  by (auto simp: Allocate_def GetWithRetry_def case_prod_beta tables_wf_def [of "snd (GetWithRetry_loop _ _ _ _ _ _ _)"]
      tables_wf_def [of a, symmetric] intro: Allocate_loop_wf
      split: waitres.splits if_splits)

lemma Release_wf: "Release B s key a = Some qa \<Longrightarrow> tables_wf a \<Longrightarrow> tables_wf (snd qa)"
  by (auto simp: Release_def case_prod_beta tables_wf_def wf_intros
      split: waitres.splits if_splits)

subsection \<open>The invariant of an instance\<close>

lemma wait_initial_Proceed: "wait_initial c s = Proceed \<Longrightarrow> c = ClosedChan"
  by (auto simp: wait_initial_def split: if_splits)

lemma allocator_inv_alt:
  "allocator_inv a =
     (tables_wf a \<and>
      (case config a of (lo, hi, m, opm, n, sg, ld) \<Rightarrow>
         1 \<le> lo \<and> lo < hi \<and> (sg = OpenChan \<or> sg = ClosedChan) \<and>
         (localKeys a = Map.empty \<or> (\<not> opm \<and> 0 < n \<and> ld = ClosedChan))))"
  by (auto simp: allocator_inv_def tables_wf_def config_def)

lemma Allocate_loop_zero: "Allocate_loop B s key 0 attempt err a = ((0, False, False, err), a)"
  by simp

lemma Allocate_inv:
  assumes "Allocate B s key a = Some ra" and "allocator_inv a"
  shows "allocator_inv (snd ra)"
proof -
  have c: "config (snd ra) = config a" using assms(1) by (rule Allocate_config)
  have w: "tables_wf (snd ra)"
    using assms by (auto simp: allocator_inv_alt intro: Allocate_wf)
  have k: "localKeys (snd ra) = localKeys a \<or>
      (\<not> operatorIDManagement a \<and> 0 < maxAllocAttempts a \<and> initialListDone a = ClosedChan)"
  proof (cases "wait_initial (initialListDone a) s")
    case Proceed
    then have ld: "initialListDone a = ClosedChan" by (rule wait_initial_Proceed)
    show ?thesis
    proof (cases "operatorIDManagement a")
      case True
      with Proceed assms(1) show ?thesis
        by (auto simp: Allocate_def GetWithRetry_def case_prod_beta)
    next
      case False
      show ?thesis
      proof (cases "0 < maxAllocAttempts a")
        case True
        with False ld show ?thesis by simp
      next
        case no: False
        then have "nat (maxAllocAttempts a) = 0" by simp
        with Proceed False assms(1) show ?thesis
          by (auto simp: Allocate_def)
      qed
    qed
  next
    case Cancelled
    with assms(1) show ?thesis by (auto simp: Allocate_def)
  next
    case Blocked
    with assms(1) show ?thesis by (auto simp: Allocate_def)
  qed
  from assms(2) c w k show ?thesis
    by (auto simp: allocator_inv_alt config_def)
qed

lemma Release_keys:
  "Release B s key a = Some qa \<Longrightarrow>
     localKeys (snd qa) = localKeys a \<or>
     localKeys (snd qa) = snd (localKeys_release (localKeys a) (GetKey key))"
  by (auto simp: Release_def case_prod_beta split: waitres.splits if_splits)

lemma release_nonempty:
  "snd (localKeys_release lk k) \<noteq> Map.empty \<Longrightarrow> lk \<noteq> Map.empty"
  by (auto simp: localKeys_release_def split: option.splits if_splits)

lemma Release_inv:
  assumes "Release B s key a = Some qa" and "allocator_inv a"
  shows "allocator_inv (snd qa)"
proof -
  have c: "config (snd qa) = config a" using assms(1) by (rule Release_config)
  have w: "tables_wf (snd qa)"
    using assms by (auto simp: allocator_inv_alt intro: Release_wf)
  have k: "localKeys (snd qa) \<noteq> Map.empty \<Longrightarrow> localKeys a \<noteq> Map.empty"
    using Release_keys [OF assms(1)] release_nonempty by metis
  from assms(2) c w k show ?thesis
    by (auto simp: allocator_inv_alt config_def)
qed

lemma Delete_inv: "Delete a = Inr a' \<Longrightarrow> allocator_inv a \<Longrightarrow> allocator_inv a'"
  by (cases "stopGC a") (auto simp: Delete_def allocator_inv_def)

lemma initial_list_received_inv:
  "allocator_inv a \<Longrightarrow> allocator_inv (initial_list_received a)"
  by (auto simp: initial_list_received_def allocator_inv_def)

lemma start_inv:
  "allocator_inv a \<Longrightarrow> initialListDone a = NilChan \<Longrightarrow> allocator_inv (start a)"
  by (auto simp: start_def allocator_inv_def)

lemma configured_stopGC: "stopGC (foldl apply_option a opts) = stopGC a"
proof (induction opts arbitrary: a)
  case Nil
  show ?case by simp
next
  case (Cons x xs)
  show ?case by (cases x) (simp_all add: Cons.IH)
qed

lemma configured_localKeys: "localKeys (foldl apply_option a opts) = localKeys a"
proof (induction opts arbitrary: a)
  case Nil
  show ?case by simp
next
  case (Cons x xs)
  show ?case by (cases x) (simp_all add: Cons.IH)
qed

lemma NewAllocator_Inr:
  assumes "NewAllocator b opts = Inr a"
  shows "min_id a = min_id (configured b opts)" and "max_id a = max_id (configured b opts)"
    and "1 \<le> min_id a" and "min_id a < max_id a"
    and "stopGC a = OpenChan" and "localKeys a = Map.empty"
    and "idPool a = NewIDPool (min_id a) (max_id a)"
proof -
  let ?c = "configured b opts"
  let ?d = "?c\<lparr>mainCache := newCache, idPool := NewIDPool (min_id ?c) (max_id ?c)\<rparr>"
  have lo: "\<not> min_id ?c < 1"
    using assms by (auto simp: NewAllocator_def Let_def split: if_splits)
  have hi: "\<not> max_id ?c \<le> min_id ?c"
    using assms lo by (auto simp: NewAllocator_def Let_def split: if_splits)
  have a: "a = ?d \<or> a = start ?d"
    using assms lo hi by (auto simp: NewAllocator_def Let_def split: if_splits)
  have sg: "stopGC ?c = OpenChan"
    by (simp add: configured_def configured_stopGC initial_Allocator_def)
  have lk: "localKeys ?c = Map.empty"
    by (simp add: configured_def configured_localKeys initial_Allocator_def newLocalKeys_def)
  show "min_id a = min_id ?c" using a by (auto simp: start_def)
  moreover show "max_id a = max_id ?c" using a by (auto simp: start_def)
  ultimately show "1 \<le> min_id a" and "min_id a < max_id a"
    using lo hi by (simp_all only: leI not_le_imp_less)
  show "stopGC a = OpenChan" using a sg by (auto simp: start_def)
  show "localKeys a = Map.empty" using a lk by (auto simp: start_def)
  show "idPool a = NewIDPool (min_id a) (max_id a)" using a by (auto simp: start_def)
qed

lemma NewAllocator_inv: "NewAllocator b opts = Inr a \<Longrightarrow> allocator_inv a"
  using NewAllocator_Inr [of b opts a]
  by (auto simp: allocator_inv_def lk_wf_def pool_wf_def NewIDPool_def)

lemma lifetime_inv:
  "lifetime B a0 a \<Longrightarrow> allocator_inv a0 \<Longrightarrow> allocator_inv a"
proof (induction rule: lifetime.induct)
  case fresh
  then show ?case .
next
  case (listed a)
  then show ?case by (simp add: initial_list_received_inv)
next
  case (started a)
  then show ?case by (simp add: start_inv)
next
  case (allocated a s key r a')
  then show ?case using Allocate_inv [of B s key a "(r, a')"] by simp
next
  case (released a s key q a')
  then show ?case using Release_inv [of B s key a "(q, a')"] by simp
next
  case (deleted a a')
  then show ?case by (simp add: Delete_inv)
qed

lemma lifetime_range:
  "lifetime B a0 a \<Longrightarrow> min_id a = min_id a0 \<and> max_id a = max_id a0"
proof (induction rule: lifetime.induct)
  case fresh
  show ?case by simp
next
  case (listed a)
  then show ?case by (simp add: initial_list_received_def)
next
  case (started a)
  then show ?case by (simp add: start_def)
next
  case (allocated a s key r a')
  then show ?case using Allocate_config [of B s key a "(r, a')"] by (simp add: config_def)
next
  case (released a s key q a')
  then show ?case using Release_config [of B s key a "(q, a')"] by (simp add: config_def)
next
  case (deleted a a')
  then show ?case by (cases "stopGC a") (auto simp: Delete_def)
qed

section \<open>Returning, and small facts about words\<close>

lemma Allocate_None:
  "Allocate B s key a = None \<longleftrightarrow> wait_initial (initialListDone a) s = Blocked"
  by (simp add: Allocate_def case_prod_beta split: waitres.splits)

lemma Allocate_returns:
  "initialListDone a = ClosedChan \<or> ctx_done s 0 \<Longrightarrow> \<exists>ra. Allocate B s key a = Some ra"
  using Allocate_None [of B s key a] by (auto simp: wait_initial_def split: if_splits)

lemma word_le_one_iff: "(x :: 'a::len word) \<le> 1 \<longleftrightarrow> x = 0 \<or> x = 1"
  by (auto simp: le_less)

lemma Min_word_interval: "lo \<le> hi \<Longrightarrow> Min {lo..hi::'a::len word} = lo"
  by (rule Min_eqI) auto

lemma interval_1_2: "{1..2::64 word} = {1, 2}"
proof -
  have a: "x = 1 \<or> x = 2" if "x \<in> {1..2}" for x :: "64 word"
  proof -
    from that have "unat x = 1 \<or> unat x = 2"
      by (auto simp: word_le_nat_alt)
    then show ?thesis
      by (auto simp: word_unat_eq_iff)
  qed
  have b: "(1::64 word) \<in> {1..2}" "(2::64 word) \<in> {1..2}"
    by simp_all
  from a b show ?thesis by blast
qed

lemmas new_defs = NewAllocator_def configured_def initial_Allocator_def Let_def start_def
  word_le_one_iff

lemma lifetime_closed:
  "lifetime B a1 a2 \<Longrightarrow> stopGC a1 = ClosedChan \<Longrightarrow> stopGC a2 = ClosedChan"
proof (induction rule: lifetime.induct)
  case fresh
  then show ?case .
next
  case (listed a)
  then show ?case by (simp add: initial_list_received_def)
next
  case (started a)
  then show ?case by (simp add: start_def)
next
  case (allocated a s key r a')
  then show ?case using Allocate_config [of B s key a "(r, a')"] by (simp add: config_def)
next
  case (released a s key q a')
  then show ?case using Release_config [of B s key a "(q, a')"] by (simp add: config_def)
next
  case (deleted a a')
  then show ?case by (simp add: Delete_def)
qed

lemma Delete_Inr: "Delete a = Inr a' \<Longrightarrow> stopGC a = OpenChan \<and> stopGC a' = ClosedChan"
  by (cases "stopGC a") (auto simp: Delete_def)

section \<open>Failed attempts\<close>

subsection \<open>Unwinding\<close>

lemma Lease_nonempty:
  "pool_wf p \<Longrightarrow> available p \<noteq> {} \<Longrightarrow>
     fst (LeaseAvailableID p) = Min (available p) \<and> Min (available p) \<in> available p \<and>
     Min (available p) \<notin> leased p \<and> Min (available p) \<noteq> NoID"
proof -
  assume wf: "pool_wf p" and ne: "available p \<noteq> {}"
  have "finite (available p)" by simp
  then have m: "Min (available p) \<in> available p" using ne by (rule Min_in)
  with wf have "Min (available p) \<notin> leased p" and "Min (available p) \<noteq> NoID"
    by (auto simp: pool_wf_def)
  with m ne show ?thesis by (simp add: LeaseAvailableID_def)
qed

lemma Lease_Release:
  assumes "pool_wf p" and "available p \<noteq> {}"
  shows "idPool_Release (snd (LeaseAvailableID p)) (fst (LeaseAvailableID p)) = p"
    and "idPool_Release (idPool_Use (snd (LeaseAvailableID p)) (fst (LeaseAvailableID p)))
           (fst (LeaseAvailableID p)) = p"
  using Lease_nonempty [OF assms] assms(2)
  by (simp_all add: LeaseAvailableID_def idPool_Release_def idPool_Use_def insert_absorb)

lemma Lease_empty: "available p = {} \<Longrightarrow> LeaseAvailableID p = (NoID, p)"
  by (simp add: LeaseAvailableID_def)

lemma allocate_absent:
  "lk k = None \<Longrightarrow>
     localKeys_allocate lk k key i =
       ((i, True, None), lk(k \<mapsto> \<lparr>lk_key = k, lk_id = i, lk_refcount = 1, lk_verified = False\<rparr>))"
  by (simp add: localKeys_allocate_def)

lemma release_fresh:
  "lk k = None \<Longrightarrow> lk_refcount e = 1 \<Longrightarrow> snd (localKeys_release (lk(k \<mapsto> e)) k) = lk"
  by (simp add: localKeys_release_def fun_upd_idem)

lemma verify_fresh:
  "snd (localKeys_verify (lk(k \<mapsto> e)) k) = lk(k \<mapsto> e\<lparr>lk_verified := True\<rparr>)"
  by (simp add: localKeys_verify_def)

lemma lockedAllocate_create_effect:
  "lockedAllocate_create B key l i u fu a = ((j, nw, f, err), a') \<Longrightarrow>
     mainCache a' = mainCache a \<and>
     (case err of
        None \<Rightarrow>
          j = i \<and> nw \<and> f = fu \<and>
          localKeys a' = snd (localKeys_verify (localKeys a) (GetKey key)) \<and>
          idPool a' = idPool_Use (idPool a) u
      | Some e \<Rightarrow>
          localKeys a' = snd (localKeys_release (localKeys a) (GetKey key)) \<and>
          (idPool a' = idPool_Release (idPool a) u \<or>
           idPool a' = idPool_Release (idPool_Use (idPool a) u) u))"
  by (auto simp: lockedAllocate_create_def releaseKeyAndID_def fail_def GetNoCache_def call_defs
      wrap_def split: prod.splits option.splits if_splits)

lemma lockedAllocate_existing_effect:
  "lockedAllocate_existing B key l v fu a = ((j, nw, f, err), a') \<Longrightarrow>
     mainCache a' = mainCache a \<and> idPool a' = idPool a \<and>
     (case err of
        None \<Rightarrow>
          j = v \<and> \<not> nw \<and> f = fu \<and>
          localKeys a' = snd (localKeys_verify (localKeys a) (GetKey key))
      | Some e \<Rightarrow> localKeys a' = snd (localKeys_release (localKeys a) (GetKey key)))"
  by (auto simp: lockedAllocate_existing_def fail_def call_defs
      split: prod.splits option.splits if_splits)

lemma lookupKey_NoID:
  "localKeys_lookupKey lk k = NoID \<Longrightarrow> lk k = None \<or> (\<exists>e. lk k = Some e \<and> lk_id e = NoID)"
  by (auto simp: localKeys_lookupKey_def split: option.splits)

lemma lockedAllocate_new_unwinds:
  assumes wf: "pool_wf (idPool a)"
    and nk: "localKeys_lookupKey (localKeys a) (GetKey key) = NoID"
    and r: "lockedAllocate_new B key l a = ((i, nw, fu, Some e), a')"
  shows "localKeys a' = localKeys a \<and> idPool a' = idPool a \<and> mainCache a' = mainCache a \<and>
         (e = NoMoreAvailableIDs \<longleftrightarrow> available (idPool a) = {})"
proof (cases "available (idPool a) = {}")
  case True
  then have "selectAvailableID a = ((0, 0), a)"
    by (simp add: selectAvailableID_def Lease_empty)
  with r True show ?thesis
    by (simp add: lockedAllocate_new_def fail_def)
next
  case False
  let ?p = "idPool a"
  let ?m = "fst (LeaseAvailableID ?p)"
  let ?a1 = "a\<lparr>idPool := snd (LeaseAvailableID ?p)\<rparr>"
  let ?i = "?m OR prefixMask a"
  from Lease_nonempty [OF wf False] have m: "?m \<noteq> NoID" by simp
  then have i: "?i \<noteq> NoID" by (simp add: or_eq_0_iff)
  have sel: "selectAvailableID a = ((?i, ?m), ?a1)"
    using m by (simp add: selectAvailableID_def case_prod_beta)
  note rel = Lease_Release [OF wf False]
  from lookupKey_NoID [OF nk] show ?thesis
  proof
    assume none: "localKeys a (GetKey key) = None"
    let ?lk = "(localKeys a)(GetKey key \<mapsto>
        \<lparr>lk_key = GetKey key, lk_id = ?i, lk_refcount = 1, lk_verified = False\<rparr>)"
    from r sel i none
    have c: "lockedAllocate_create B key l ?i ?m True (?a1\<lparr>localKeys := ?lk\<rparr>) =
        ((i, nw, fu, Some e), a')"
      by (simp add: lockedAllocate_new_def allocate_absent)
    have ne: "e \<noteq> NoMoreAvailableIDs"
      using c by (auto simp: lockedAllocate_create_def case_prod_beta fail_def GetNoCache_def
          wrap_def split: option.splits if_splits)
    from lockedAllocate_create_effect [OF c] rel none ne False show ?thesis
      by (auto simp: release_fresh)
  next
    assume "\<exists>e. localKeys a (GetKey key) = Some e \<and> lk_id e = NoID"
    then obtain e0 where e0: "localKeys a (GetKey key) = Some e0" "lk_id e0 = NoID" by blast
    with r sel i rel False show ?thesis
      by (auto simp: lockedAllocate_new_def localKeys_allocate_def fail_def)
  qed
qed

lemma release_used:
  "lk k = Some e \<Longrightarrow> 0 < lk_refcount e \<Longrightarrow>
     snd (localKeys_release (lk(k \<mapsto> e\<lparr>lk_refcount := lk_refcount e + 1\<rparr>)) k) = lk"
  by (simp add: localKeys_release_def fun_upd_idem)

lemma lockedAllocate_new_unwinds_held:
  assumes wf: "pool_wf (idPool a)"
    and lw: "lk_wf (localKeys a)"
    and r: "lockedAllocate_new B key l a = ((i, nw, fu, Some e), a')"
  shows "localKeys a' = localKeys a \<and> idPool a' = idPool a \<and> mainCache a' = mainCache a \<and>
         (e = NoMoreAvailableIDs \<longleftrightarrow> available (idPool a) = {})"
proof (cases "localKeys a (GetKey key)")
  case None
  then have "localKeys_lookupKey (localKeys a) (GetKey key) = NoID"
    by (simp add: localKeys_lookupKey_def)
  with wf show ?thesis using r by (rule lockedAllocate_new_unwinds)
next
  case (Some e0)
  with lw have rc: "0 < lk_refcount e0" by (auto simp: lk_wf_def)
  show ?thesis
  proof (cases "available (idPool a) = {}")
    case True
    then have "selectAvailableID a = ((0, 0), a)"
      by (simp add: selectAvailableID_def Lease_empty)
    with r True show ?thesis
      by (simp add: lockedAllocate_new_def fail_def)
  next
    case False
    let ?p = "idPool a"
    let ?m = "fst (LeaseAvailableID ?p)"
    let ?a1 = "a\<lparr>idPool := snd (LeaseAvailableID ?p)\<rparr>"
    let ?i = "?m OR prefixMask a"
    from Lease_nonempty [OF wf False] have m: "?m \<noteq> NoID" by simp
    then have i: "?i \<noteq> NoID" by (simp add: or_eq_0_iff)
    have sel: "selectAvailableID a = ((?i, ?m), ?a1)"
      using m by (simp add: selectAvailableID_def case_prod_beta)
    note rel = Lease_Release [OF wf False]
    show ?thesis
    proof (cases "lk_id e0 = ?i")
      case same: True
      let ?lk = "(localKeys a)(GetKey key \<mapsto> e0\<lparr>lk_refcount := lk_refcount e0 + 1\<rparr>)"
      from r sel i Some same
      have c: "lockedAllocate_create B key l ?i ?m False (?a1\<lparr>localKeys := ?lk\<rparr>) =
          ((i, nw, fu, Some e), a')"
        by (simp add: lockedAllocate_new_def localKeys_allocate_def)
      have ne: "e \<noteq> NoMoreAvailableIDs"
        using c by (auto simp: lockedAllocate_create_def case_prod_beta fail_def GetNoCache_def
            wrap_def split: option.splits if_splits)
      from lockedAllocate_create_effect [OF c] rel ne False release_used [of "localKeys a" "GetKey key" e0, OF Some rc]
      show ?thesis by auto
    next
      case other: False
      with r sel i rel False Some show ?thesis
        by (auto simp: lockedAllocate_new_def localKeys_allocate_def fail_def)
    qed
  qed
qed

subsection \<open>Release\<close>

lemma wait_initial_live: "\<not> ctx_done s 0 \<Longrightarrow> wait_initial ClosedChan s = Proceed"
  by (simp add: wait_initial_def)

lemma Release_not_last:
  assumes "\<not> operatorIDManagement a" and "initialListDone a = ClosedChan"
    and "\<not> ctx_done s 0" and "localKeys a (GetKey key) = Some e" and "1 < lk_refcount e"
  shows "Release B s key a =
     Some ((False, None),
       a\<lparr>localKeys := (localKeys a)(GetKey key \<mapsto> e\<lparr>lk_refcount := lk_refcount e - 1\<rparr>)\<rparr>)"
  using assms by (simp add: Release_def wait_initial_live localKeys_release_def)

lemma Release_last:
  assumes "\<not> operatorIDManagement a" and "initialListDone a = ClosedChan"
    and "\<not> ctx_done s 0" and "localKeys a (GetKey key) = Some e" and "lk_refcount e = 1"
  shows "Release B s key a =
     Some ((True, None),
       a\<lparr>localKeys := (localKeys a)(GetKey key := None),
         backend := snd (bRelease B (backend a) (lk_id e) key),
         calls := calls a @ [CallRelease (lk_id e) key]\<rparr>)"
  using assms
  by (simp add: Release_def wait_initial_live localKeys_release_def call_Release_def
      case_prod_beta)

lemma Release_seq_not_last:
  assumes "\<not> operatorIDManagement a" and "initialListDone a = ClosedChan"
    and "\<forall>s\<in>set ss. \<not> ctx_done s 0"
    and "localKeys a (GetKey key) = Some e" and "length ss < lk_refcount e"
  shows "Release_seq B ss key a =
     Some (replicate (length ss) (False, None),
       a\<lparr>localKeys :=
           (localKeys a)(GetKey key \<mapsto> e\<lparr>lk_refcount := lk_refcount e - length ss\<rparr>)\<rparr>)"
  using assms
proof (induction ss arbitrary: a e)
  case Nil
  then show ?case by (simp add: fun_upd_idem)
next
  case (Cons s ss)
  let ?k = "GetKey key"
  let ?e1 = "e\<lparr>lk_refcount := lk_refcount e - 1\<rparr>"
  let ?a1 = "a\<lparr>localKeys := (localKeys a)(?k \<mapsto> ?e1)\<rparr>"
  let ?e2 = "e\<lparr>lk_refcount := lk_refcount e - length (s # ss)\<rparr>"
  have r: "Release B s key a = Some ((False, None), ?a1)"
    using Cons.prems by (intro Release_not_last) auto
  have e: "?e1\<lparr>lk_refcount := lk_refcount ?e1 - length ss\<rparr> = ?e2"
    by simp
  have "Release_seq B ss key ?a1 =
     Some (replicate (length ss) (False, None),
       ?a1\<lparr>localKeys :=
           (localKeys ?a1)(?k \<mapsto> ?e1\<lparr>lk_refcount := lk_refcount ?e1 - length ss\<rparr>)\<rparr>)"
    using Cons.prems by (intro Cons.IH) auto
  also have "?a1\<lparr>localKeys :=
           (localKeys ?a1)(?k \<mapsto> ?e1\<lparr>lk_refcount := lk_refcount ?e1 - length ss\<rparr>)\<rparr> =
      a\<lparr>localKeys := (localKeys a)(?k \<mapsto> ?e2)\<rparr>"
    unfolding e by simp
  finally have "Release_seq B ss key ?a1 =
     Some (replicate (length ss) (False, None), a\<lparr>localKeys := (localKeys a)(?k \<mapsto> ?e2)\<rparr>)" .
  with r show ?case by (simp del: fun_upd_apply)
qed

lemma lifetime_facts:
  assumes "NewAllocator b opts = Inr a0" and "lifetime B a0 a"
  shows "allocator_inv a"
  using assms by (auto intro: lifetime_inv NewAllocator_inv)

lemma in_use_facts:
  assumes "allocator_inv a" and "localKeys a k = Some e"
  shows "\<not> operatorIDManagement a" and "0 < maxAllocAttempts a"
    and "initialListDone a = ClosedChan" and "lk_id e \<noteq> NoID" and "0 < lk_refcount e"
proof -
  from assms(2) have "localKeys a \<noteq> Map.empty" by auto
  with assms(1) show "\<not> operatorIDManagement a" and "0 < maxAllocAttempts a"
    and "initialListDone a = ClosedChan"
    by (auto simp: allocator_inv_def)
  from assms show "lk_id e \<noteq> NoID" and "0 < lk_refcount e"
    by (auto simp: allocator_inv_def lk_wf_def)
qed

subsection \<open>Polling under operator-managed IDs\<close>







subsection \<open>An exhausted pool\<close>



subsection \<open>A successful allocation takes one local reference\<close>

lemma GetIfLocked_locals:
  "GetIfLocked B key l a = (r, a1) \<Longrightarrow>
     localKeys a1 = localKeys a \<and> idPool a1 = idPool a \<and> mainCache a1 = mainCache a"
  using locals_lookups(7-9) [of B key l a] by simp

lemma lockedAllocate_new_success:
  assumes none: "localKeys a (GetKey key) = None"
    and r: "lockedAllocate_new B key l a = ((i, nw, fu, None), a')"
  shows "i \<noteq> NoID \<and>
     localKeys a' =
       (localKeys a)(GetKey key \<mapsto>
          \<lparr>lk_key = GetKey key, lk_id = i, lk_refcount = 1, lk_verified = True\<rparr>)"
proof -
  obtain j u a1 where sel: "selectAvailableID a = ((j, u), a1)"
    by (metis prod.collapse)
  then have l1: "localKeys a1 = localKeys a"
    by (auto simp: selectAvailableID_def split: prod.splits if_splits)
  from r sel have j: "j \<noteq> NoID"
    by (auto simp: lockedAllocate_new_def fail_def)
  let ?lk = "(localKeys a)(GetKey key \<mapsto>
      \<lparr>lk_key = GetKey key, lk_id = j, lk_refcount = 1, lk_verified = False\<rparr>)"
  from r sel j none l1
  have c: "lockedAllocate_create B key l j u True (a1\<lparr>localKeys := ?lk\<rparr>) =
      ((i, nw, fu, None), a')"
    by (simp add: lockedAllocate_new_def allocate_absent)
  from lockedAllocate_create_effect [OF c] j show ?thesis
    by (simp add: verify_fresh)
qed

lemma lockedAllocate_locked_absent:
  assumes none: "localKeys a (GetKey key) = None" and wf: "pool_wf (idPool a)"
    and r: "lockedAllocate_locked B key l a = ((i, nw, fu, err), a')"
  shows "case err of
       None \<Rightarrow> i \<noteq> NoID \<and>
         localKeys a' =
           (localKeys a)(GetKey key \<mapsto>
              \<lparr>lk_key = GetKey key, lk_id = i, lk_refcount = 1, lk_verified = True\<rparr>)
     | Some e \<Rightarrow> localKeys a' = localKeys a"
proof -
  obtain v e0 a1 where g: "GetIfLocked B key l a = ((v, e0), a1)"
    by (metis prod.collapse)
  note l1 = GetIfLocked_locals [OF g]
  show ?thesis
  proof (cases e0)
    case (Some x)
    with r g l1 show ?thesis by (auto simp: lockedAllocate_locked_def fail_def)
  next
    case None
    show ?thesis
    proof (cases "v = 0")
      case True
      from none l1 have nk: "localKeys_lookupKey (localKeys a1) (GetKey key) = NoID"
        by (simp add: localKeys_lookupKey_def)
      with r g None True
      have n: "lockedAllocate_new B key l a1 = ((i, nw, fu, err), a')"
        by (simp add: lockedAllocate_locked_def)
      show ?thesis
      proof (cases err)
        case None
        with n none l1 lockedAllocate_new_success [of a1 key B l i nw fu a'] show ?thesis
          by simp
      next
        case (Some e)
        with n wf nk l1 lockedAllocate_new_unwinds [of a1 key B l i nw fu e a'] show ?thesis
          by simp
      qed
    next
      case False
      let ?lk = "(localKeys a)(GetKey key \<mapsto>
          \<lparr>lk_key = GetKey key, lk_id = v, lk_refcount = 1, lk_verified = False\<rparr>)"
      from r g None False none l1
      have x: "lockedAllocate_existing B key l v True (a1\<lparr>localKeys := ?lk\<rparr>) =
          ((i, nw, fu, err), a')"
        by (simp add: lockedAllocate_locked_def allocate_absent)
      from lockedAllocate_existing_effect [OF x] none False show ?thesis
        by (auto simp: verify_fresh release_fresh split: option.splits)
    qed
  qed
qed

lemma lockedAllocate_absent:
  assumes none: "localKeys a (GetKey key) = None" and wf: "pool_wf (idPool a)"
    and r: "lockedAllocate B key a = ((i, nw, fu, err), a')"
  shows "case err of
       None \<Rightarrow> i \<noteq> NoID \<and>
         localKeys a' =
           (localKeys a)(GetKey key \<mapsto>
              \<lparr>lk_key = GetKey key, lk_id = i, lk_refcount = 1, lk_verified = True\<rparr>)
     | Some e \<Rightarrow> localKeys a' = localKeys a"
proof -
  obtain l e0 a1 where lk: "call_Lock B key a = ((l, e0), a1)"
    by (metis prod.collapse)
  then have l1: "localKeys a1 = localKeys a" "idPool a1 = idPool a"
    using locals_calls(1,2) [of B key a] by simp_all
  show ?thesis
  proof (cases e0)
    case (Some x)
    with r lk l1 show ?thesis by (auto simp: lockedAllocate_def fail_def)
  next
    case None
    obtain q a2 where b: "lockedAllocate_locked B key l a1 = (q, a2)"
      by (metis prod.collapse)
    with r lk None have q: "q = (i, nw, fu, err)" and a': "a' = call_Unlock B l a2"
      by (simp_all add: lockedAllocate_def)
    from lockedAllocate_locked_absent [of a1 key B l i nw fu err a2] none wf l1 b q a'
    show ?thesis by (simp split: option.splits)
  qed
qed

lemma Allocate_loop_counts:
  assumes "tables_wf a"
    and "Allocate_loop B s key n attempt err0 a = ((i, nw, fu, None), a')" and "i \<noteq> NoID"
  shows "(\<exists>e. localKeys a' (GetKey key) = Some e \<and> lk_id e = i \<and>
          lk_refcount e = refcnt a (GetKey key) + 1) \<and>
     (\<forall>k. k \<noteq> GetKey key \<longrightarrow> localKeys a' k = localKeys a k)"
  using assms
proof (induction n arbitrary: attempt err0 a)
  case 0
  then show ?case by simp
next
  case (Suc n)
  show ?case
  proof (cases "localKeys a (GetKey key)")
    case (Some e)
    with Suc.prems(1) have "lk_id e \<noteq> NoID" by (auto simp: tables_wf_def lk_wf_def)
    with Suc.prems(2) Some show ?thesis
      by (auto simp: localKeys_use_def refcnt_def)
  next
    case None
    obtain v isNew fu' err' a2 where la: "lockedAllocate B key a = ((v, isNew, fu', err'), a2)"
      by (metis prod.collapse)
    from Suc.prems(1) have wf: "pool_wf (idPool a)" by (simp add: tables_wf_def)
    note ab = lockedAllocate_absent [OF None wf la]
    show ?thesis
    proof (cases err')
      case ok: None
      with Suc.prems(2) None la
      have "a' = a2\<lparr>mainCache := cache_insert (mainCache a2) key v\<rparr>" and "v = i"
        by (auto simp: localKeys_use_def)
      with ab ok None show ?thesis by (simp add: refcnt_def)
    next
      case (Some e)
      with ab have same: "localKeys a2 = localKeys a" by simp
      have wf2: "tables_wf a2"
        using lockedAllocate_wf [OF Suc.prems(1), of B key] la by simp
      from Suc.prems(2) None la Some
      have "Allocate_loop B s key n (Suc attempt) err' a2 = ((i, nw, fu, None), a')"
        by (simp add: localKeys_use_def fail_def split: if_splits)
      from Suc.IH [OF wf2 this Suc.prems(3)] same show ?thesis
        by (simp add: refcnt_def)
    qed
  qed
qed

lemma Allocate_counts:
  assumes "allocator_inv a" and "\<not> operatorIDManagement a"
    and "Allocate B s key a = Some ((i, nw, fu, None), a')" and "i \<noteq> NoID"
  shows "(\<exists>e. localKeys a' (GetKey key) = Some e \<and> lk_id e = i \<and>
          lk_refcount e = refcnt a (GetKey key) + 1) \<and>
     (\<forall>k. k \<noteq> GetKey key \<longrightarrow> localKeys a' k = localKeys a k)"
proof -
  from assms(1) have wf: "tables_wf a" by (simp add: allocator_inv_def tables_wf_def)
  from assms(2,3)
  have "Allocate_loop B s key (nat (maxAllocAttempts a)) 0 None a = ((i, nw, fu, None), a')"
    by (auto simp: Allocate_def fail_def split: waitres.splits)
  from Allocate_loop_counts [OF wf this assms(4)] show ?thesis .
qed

lemma Release_seq_all:
  assumes inv: "allocator_inv a"
    and k: "localKeys a (GetKey key) = Some e"
    and len: "length ss = lk_refcount e" and live: "\<forall>s\<in>set ss. \<not> ctx_done s 0"
  shows "Release_seq B (butlast ss) key a =
       Some (replicate (lk_refcount e - 1) (False, None),
         a\<lparr>localKeys := (localKeys a)(GetKey key \<mapsto> e\<lparr>lk_refcount := 1\<rparr>)\<rparr>) \<and>
     Release B (last ss) key
         (a\<lparr>localKeys := (localKeys a)(GetKey key \<mapsto> e\<lparr>lk_refcount := 1\<rparr>)\<rparr>) =
       Some ((True, None),
         a\<lparr>localKeys := (localKeys a)(GetKey key := None),
           backend := snd (bRelease B (backend a) (lk_id e) key),
           calls := calls a @ [CallRelease (lk_id e) key]\<rparr>)"
proof -
  note f = in_use_facts [OF inv k]
  from f(5) len have ne: "ss \<noteq> []" by auto
  then have l: "last ss \<in> set ss" and bl: "\<forall>s\<in>set (butlast ss). \<not> ctx_done s 0"
    using live by (auto dest: in_set_butlastD)
  have lt: "length (butlast ss) < lk_refcount e" using ne len f(5) by simp
  have one: "lk_refcount e - length (butlast ss) = 1" using ne len f(5) by simp
  let ?e1 = "e\<lparr>lk_refcount := 1\<rparr>"
  let ?a1 = "a\<lparr>localKeys := (localKeys a)(GetKey key \<mapsto> ?e1)\<rparr>"
  have 1: "Release_seq B (butlast ss) key a =
      Some (replicate (length (butlast ss)) (False, None), ?a1)"
    using Release_seq_not_last [OF f(1,3) bl k lt, of B] unfolding one .
  have "Release B (last ss) key ?a1 =
     Some ((True, None),
       ?a1\<lparr>localKeys := (localKeys ?a1)(GetKey key := None),
         backend := snd (bRelease B (backend ?a1) (lk_id ?e1) key),
         calls := calls ?a1 @ [CallRelease (lk_id ?e1) key]\<rparr>)"
    using f(1,3) l live by (intro Release_last) auto
  with 1 len ne show ?thesis by simp
qed

lemma Allocate_seq_counts:
  assumes "lifetime B a0 a" and "allocator_inv a" and "\<not> operatorIDManagement a"
    and "Allocate_seq B ts key a = Some (rs, a1)"
    and "\<forall>r\<in>set rs. fst r \<noteq> NoID \<and> snd (snd (snd r)) = None"
  shows "lifetime B a0 a1 \<and> allocator_inv a1 \<and>
     refcnt a1 (GetKey key) = refcnt a (GetKey key) + length ts \<and>
     (ts \<noteq> [] \<longrightarrow>
        (\<exists>e. localKeys a1 (GetKey key) = Some e \<and> lk_id e = fst (last rs)))"
  using assms
proof (induction ts arbitrary: a rs)
  case Nil
  then show ?case by simp
next
  case (Cons s ts)
  from Cons.prems(4) obtain r a2 rs' where
    r: "Allocate B s key a = Some (r, a2)" and
    rest: "Allocate_seq B ts key a2 = Some (rs', a1)" and rs: "rs = r # rs'"
    by (auto split: option.splits prod.splits)
  obtain i nw fu err where rr: "r = (i, nw, fu, err)" by (metis prod.collapse)
  from Cons.prems(5) rs rr have ok: "i \<noteq> NoID" "err = None"
    and oks: "\<forall>r\<in>set rs'. fst r \<noteq> NoID \<and> snd (snd (snd r)) = None"
    by auto
  have l2: "lifetime B a0 a2" using Cons.prems(1) r by (rule lifetime.allocated)
  have i2: "allocator_inv a2" using Allocate_inv [OF r Cons.prems(2)] by simp
  have o2: "\<not> operatorIDManagement a2"
    using Allocate_config [OF r] Cons.prems(3) by (simp add: config_def)
  from r rr ok have "Allocate B s key a = Some ((i, nw, fu, None), a2)" by simp
  from Allocate_counts [OF Cons.prems(2,3) this ok(1)] obtain e where
    e: "localKeys a2 (GetKey key) = Some e" "lk_id e = i"
      "lk_refcount e = refcnt a (GetKey key) + 1"
    by blast
  then have c2: "refcnt a2 (GetKey key) = refcnt a (GetKey key) + 1" by (simp add: refcnt_def)
  note ih = Cons.IH [OF l2 i2 o2 rest oks]
  show ?case
  proof (cases "ts = []")
    case True
    with rest have "a1 = a2" "rs' = []" by simp_all
    with ih c2 e rs rr show ?thesis by simp
  next
    case False
    with rest have "rs' \<noteq> []" by (cases ts) (auto split: option.splits prod.splits)
    with ih c2 False rs show ?thesis by simp
  qed
qed

section \<open>Concrete instances\<close>

lemmas Allocate_loop_numeral =
  Allocate_loop.simps(2) [of _ _ _ "pred_numeral k" for k, folded numeral_eq_Suc]

lemmas GetWithRetry_loop_numeral =
  GetWithRetry_loop.simps(2) [of _ _ _ "pred_numeral k" for k, folded numeral_eq_Suc]

lemmas eval_defs =
  node_def exhausted_def new_defs initial_list_received_def
  Allocate_def wait_initial_def live_def cancelled_def foo_def bar_def baz_def
  GetWithRetry_def getID_def Get_def GetNoCache_def GetIfLocked_def
  lockedAllocate_def lockedAllocate_locked_def lockedAllocate_new_def
  lockedAllocate_create_def lockedAllocate_existing_def
  selectAvailableID_def releaseKeyAndID_def fail_def wrap_def
  LeaseAvailableID_def idPool_Use_def idPool_Release_def NewIDPool_def
  localKeys_allocate_def localKeys_use_def localKeys_release_def localKeys_lookupKey_def
  localKeys_verify_def newLocalKeys_def
  newCache_def cache_get_def cache_insert_def
  call_defs memBackend_def racingBackend_def failingBackend_def emptyBackend_def
  noRefBackend_def defaultMaxAllocAttempts_def
  Min_word_interval Allocate_loop_numeral GetWithRetry_loop_numeral

lemma Allocate_fast_path:
  assumes inv: "allocator_inv a"
    and "localKeys a (GetKey key) = Some e" and "\<not> ctx_done s 0"
  shows "Allocate B s key a =
     Some ((lk_id e, False, False, None),
       a\<lparr>localKeys := (localKeys a)(GetKey key \<mapsto> e\<lparr>lk_refcount := lk_refcount e + 1\<rparr>),
         mainCache := cache_insert (mainCache a) key (lk_id e)\<rparr>)"
proof -
  note f = in_use_facts [OF inv assms(2)]
  from f(2) obtain n where n: "nat (maxAllocAttempts a) = Suc n"
    by (cases "nat (maxAllocAttempts a)") auto
  show ?thesis
    using f(1,3,4) assms(2,3) n
    by (simp add: Allocate_def wait_initial_live localKeys_use_def)
qed

lemma node_new:
  "NewAllocator ([] :: (string \<times> ID) list) [WithMax 2, WithMaxAllocAttempts 3] =
     Inr (projr (NewAllocator [] [WithMax 2, WithMaxAllocAttempts 3]))"
  by (simp add: new_defs)

lemma node_lifetime:
  "NewAllocator b opts = Inr a0 \<Longrightarrow> lifetime B a0 (node b opts)"
  by (simp add: node_def lifetime.listed lifetime.fresh)

lemma eval_first:
  "\<exists>a'. Allocate memBackend live foo (node [] [WithMax 2, WithMaxAllocAttempts 3]) =
       Some ((1, True, True, None), a') \<and>
     localKeys a' (GetKey foo) =
       Some \<lparr>lk_key = ''foo'', lk_id = 1, lk_refcount = 1, lk_verified = True\<rparr> \<and>
     calls a' =
       [CallLock foo, CallGetIfLocked foo 0, CallGet foo, CallAllocateIDIfLocked 1 foo 0,
        CallAcquireReference 1 foo 0, CallUnlock 0]"
  by (simp add: eval_defs)

lemma node_new_any:
  "NewAllocator b [WithMax 2, WithMaxAllocAttempts 3] =
     Inr (projr (NewAllocator b [WithMax 2, WithMaxAllocAttempts 3]))"
  by (simp add: new_defs)

lemma eval_first_ref:
  "\<exists>a'. Allocate refBackend live foo (node ([], []) [WithMax 2, WithMaxAllocAttempts 3]) =
       Some ((1, True, True, None), a') \<and>
     localKeys a' (GetKey foo) =
       Some \<lparr>lk_key = ''foo'', lk_id = 1, lk_refcount = 1, lk_verified = True\<rparr> \<and>
     backend a' = ([(''foo'', 1)], [(1, ''foo'')])"
  by (simp add: eval_defs refBackend_def)

lemma in_use_once:
  "\<exists>a0 a. NewAllocator ([] :: (string \<times> ID) list) [WithMax 2, WithMaxAllocAttempts 3] = Inr a0 \<and>
     lifetime memBackend a0 a \<and>
     localKeys a (GetKey foo) =
       Some \<lparr>lk_key = ''foo'', lk_id = 1, lk_refcount = 1, lk_verified = True\<rparr>"
proof -
  from eval_first obtain a where
    a: "Allocate memBackend live foo (node [] [WithMax 2, WithMaxAllocAttempts 3]) =
       Some ((1, True, True, None), a)"
    and k: "localKeys a (GetKey foo) =
       Some \<lparr>lk_key = ''foo'', lk_id = 1, lk_refcount = 1, lk_verified = True\<rparr>"
    by blast
  have "lifetime memBackend (projr (NewAllocator [] [WithMax 2, WithMaxAllocAttempts 3])) a"
    using node_lifetime [OF node_new] a by (rule lifetime.allocated)
  with node_new k show ?thesis by blast
qed

section \<open>The claims\<close>

text \<open>
  C1. Every call of \<^verbatim>\<open>Allocate\<close> that returns a nil error returns an ID other than
  \<open>NoID\<close>. With \<^verbatim>\<open>WithMaxAllocAttempts(0)\<close> the loops of \<^verbatim>\<open>Allocate\<close> and of
  \<^verbatim>\<open>GetWithRetry\<close> run no iteration and the code falls through to its last
  \<^verbatim>\<open>return\<close> with \<^verbatim>\<open>err\<close> still nil: on an allocator built that way, after the initial
  list, \<^verbatim>\<open>Allocate\<close> returns \<open>NoID\<close> with a nil error, with and without operator-managed
  IDs. (For a positive number of attempts the claim holds: lemma
  \<open>Allocate_nil_error_nonzero\<close>.)
\<close>

theorem C1_zero_attempts:
  "Allocate memBackend live foo
     (initial_list_received (projr (NewAllocator [] [WithMaxAllocAttempts 0]))) =
   Some ((NoID, False, False, None),
     initial_list_received (projr (NewAllocator [] [WithMaxAllocAttempts 0]))) \<and>
   Allocate memBackend live foo
     (initial_list_received
        (projr (NewAllocator [] [WithOperatorIDManagement, WithMaxAllocAttempts 0]))) =
   Some ((NoID, False, False, None),
     initial_list_received
        (projr (NewAllocator [] [WithOperatorIDManagement, WithMaxAllocAttempts 0])))"
  by (simp add: new_defs initial_list_received_def Allocate_def wait_initial_def live_def
      GetWithRetry_def)

text \<open>
  C2. In any state of an instance built by \<^verbatim>\<open>NewAllocator\<close> in which the key has a local
  entry (its refcount is then positive), \<^verbatim>\<open>Allocate\<close> under a context that is live when
  the call starts takes the local fast path: it returns the entry's ID with
  \<open>isNew = false\<close>, \<open>firstUse = false\<close> and a nil error; the only changes are the
  refcount, incremented, and the main cache, which receives the mapping through
  \<^verbatim>\<open>insert\<close>. The backend's state and the record of backend calls are as before: no
  backend operation is issued.
\<close>

theorem C2_local_fast_path:
  assumes "NewAllocator b opts = Inr a0" and "lifetime B a0 a"
    and "localKeys a (GetKey key) = Some e" and "\<not> ctx_done s 0"
  shows "Allocate B s key a =
     Some ((lk_id e, False, False, None),
       a\<lparr>localKeys := (localKeys a)(GetKey key \<mapsto> e\<lparr>lk_refcount := lk_refcount e + 1\<rparr>),
         mainCache := cache_insert (mainCache a) key (lk_id e)\<rparr>)"
proof -
  have inv: "allocator_inv a" using assms(1,2) by (rule lifetime_facts)
  note f = in_use_facts [OF inv assms(3)]
  from f(2) obtain n where n: "nat (maxAllocAttempts a) = Suc n"
    by (cases "nat (maxAllocAttempts a)") auto
  show ?thesis
    using f(1,3,4) assms(3,4) n
    by (simp add: Allocate_def wait_initial_live localKeys_use_def)
qed

theorem C2_local_fast_path_witness:
  "\<exists>a0 a a'. NewAllocator ([] :: (string \<times> ID) list) [WithMax 2, WithMaxAllocAttempts 3] = Inr a0 \<and>
     lifetime memBackend a0 a \<and>
     localKeys a (GetKey foo) =
       Some \<lparr>lk_key = ''foo'', lk_id = 1, lk_refcount = 1, lk_verified = True\<rparr> \<and>
     \<not> ctx_done live 0 \<and>
     Allocate memBackend live foo a = Some ((1, False, False, None), a') \<and>
     localKeys a' (GetKey foo) =
       Some \<lparr>lk_key = ''foo'', lk_id = 1, lk_refcount = 2, lk_verified = True\<rparr> \<and>
     calls a' = calls a \<and> backend a' = backend a"
proof -
  from in_use_once obtain a0 a where
    n: "NewAllocator ([] :: (string \<times> ID) list) [WithMax 2, WithMaxAllocAttempts 3] = Inr a0"
    and l: "lifetime memBackend a0 a"
    and k: "localKeys a (GetKey foo) =
       Some \<lparr>lk_key = ''foo'', lk_id = 1, lk_refcount = 1, lk_verified = True\<rparr>"
    by blast
  have nc: "\<not> ctx_done live 0" by (simp add: live_def)
  let ?e = "\<lparr>lk_key = ''foo'', lk_id = 1, lk_refcount = 1, lk_verified = True\<rparr>"
  let ?a' = "a\<lparr>localKeys := (localKeys a)(GetKey foo \<mapsto> ?e\<lparr>lk_refcount := lk_refcount ?e + 1\<rparr>),
         mainCache := cache_insert (mainCache a) foo (lk_id ?e)\<rparr>"
  from C2_local_fast_path [OF n l k nc]
  have r: "Allocate memBackend live foo a = Some ((1, False, False, None), ?a')"
    by simp
  have "localKeys ?a' (GetKey foo) =
       Some \<lparr>lk_key = ''foo'', lk_id = 1, lk_refcount = 2, lk_verified = True\<rparr>"
    and "calls ?a' = calls a" and "backend ?a' = backend a"
    by simp_all
  with n l k nc r show ?thesis by blast
qed

text \<open>
  C3. Take any state of an instance built by \<^verbatim>\<open>NewAllocator\<close> without operator-managed
  IDs in which the key is not in local use. Let the node allocate the key \<open>M \<ge> 1\<close> times,
  each call returning an ID and a nil error, and then release it \<open>M\<close> times under live
  contexts. After the allocations the key has a local entry \<open>e\<close> with the allocated ID and
  the refcount \<open>M\<close>. The first \<open>M - 1\<close> releases return \<open>lastUse = false\<close> and change only
  that refcount, which they bring down to 1: the backend's state and the record of
  backend calls are as they were. The \<open>M\<close>-th returns \<open>lastUse = true\<close>: it removes the
  local entry, applies \<^verbatim>\<open>Backend.Release\<close> with the allocated ID to the backend's state
  and records that one call; nothing else changes.
\<close>

theorem C3_only_last_release:
  assumes "NewAllocator b opts = Inr a0" and "lifetime B a0 a"
    and "\<not> operatorIDManagement a" and "localKeys a (GetKey key) = None"
    and "Allocate_seq B ts key a = Some (rs, a1)"
    and "\<forall>r\<in>set rs. fst r \<noteq> NoID \<and> snd (snd (snd r)) = None"
    and "ts \<noteq> []" and "length ss = length ts" and "\<forall>s\<in>set ss. \<not> ctx_done s 0"
  shows "\<exists>e.
     localKeys a1 (GetKey key) = Some e \<and> lk_id e = fst (last rs) \<and>
     lk_refcount e = length ts \<and>
     Release_seq B (butlast ss) key a1 =
       Some (replicate (length ts - 1) (False, None),
         a1\<lparr>localKeys := (localKeys a1)(GetKey key \<mapsto> e\<lparr>lk_refcount := 1\<rparr>)\<rparr>) \<and>
     Release B (last ss) key
         (a1\<lparr>localKeys := (localKeys a1)(GetKey key \<mapsto> e\<lparr>lk_refcount := 1\<rparr>)\<rparr>) =
       Some ((True, None),
         a1\<lparr>localKeys := (localKeys a1)(GetKey key := None),
            backend := snd (bRelease B (backend a1) (fst (last rs)) key),
            calls := calls a1 @ [CallRelease (fst (last rs)) key]\<rparr>)"
proof -
  have inv: "allocator_inv a" using assms(1,2) by (rule lifetime_facts)
  from Allocate_seq_counts [OF assms(2) inv assms(3,5,6)] assms(4,7)
  obtain e where i1: "allocator_inv a1"
    and c: "refcnt a1 (GetKey key) = length ts"
    and e: "localKeys a1 (GetKey key) = Some e" "lk_id e = fst (last rs)"
    by (auto simp: refcnt_def)
  from c e have m: "lk_refcount e = length ts" by (simp add: refcnt_def)
  with assms(8) have len: "length ss = lk_refcount e" by simp
  from Release_seq_all [OF i1 e(1) len assms(9), of B] e m
  have "localKeys a1 (GetKey key) = Some e \<and> lk_id e = fst (last rs) \<and>
     lk_refcount e = length ts \<and>
     Release_seq B (butlast ss) key a1 =
       Some (replicate (length ts - 1) (False, None),
         a1\<lparr>localKeys := (localKeys a1)(GetKey key \<mapsto> e\<lparr>lk_refcount := 1\<rparr>)\<rparr>) \<and>
     Release B (last ss) key
         (a1\<lparr>localKeys := (localKeys a1)(GetKey key \<mapsto> e\<lparr>lk_refcount := 1\<rparr>)\<rparr>) =
       Some ((True, None),
         a1\<lparr>localKeys := (localKeys a1)(GetKey key := None),
            backend := snd (bRelease B (backend a1) (fst (last rs)) key),
            calls := calls a1 @ [CallRelease (fst (last rs)) key]\<rparr>)"
    by simp
  then show ?thesis by (rule exI)
qed

theorem C3_only_last_release_witness:
  "\<exists>a0 a1 a2 a3.
     NewAllocator (([], []) :: (string \<times> ID) list \<times> (ID \<times> string) list)
       [WithMax 2, WithMaxAllocAttempts 3] = Inr a0 \<and>
     lifetime refBackend a0 (node ([], []) [WithMax 2, WithMaxAllocAttempts 3]) \<and>
     Allocate_seq refBackend [live, live] foo (node ([], []) [WithMax 2, WithMaxAllocAttempts 3]) =
       Some ([(1, True, True, None), (1, False, False, None)], a1) \<and>
     backend a1 = ([(''foo'', 1)], [(1, ''foo'')]) \<and>
     Release refBackend live foo a1 = Some ((False, None), a2) \<and>
     calls a2 = calls a1 \<and> backend a2 = backend a1 \<and>
     Release refBackend live foo a2 = Some ((True, None), a3) \<and>
     calls a3 = calls a1 @ [CallRelease 1 foo] \<and> backend a3 = ([(''foo'', 1)], []) \<and>
     localKeys a3 (GetKey foo) = None"
proof -
  let ?b = "([], []) :: (string \<times> ID) list \<times> (ID \<times> string) list"
  let ?fresh = "projr (NewAllocator ?b [WithMax 2, WithMaxAllocAttempts 3])"
  let ?a = "node ?b [WithMax 2, WithMaxAllocAttempts 3]"
  let ?e = "\<lparr>lk_key = ''foo'', lk_id = 1, lk_refcount = 1, lk_verified = True\<rparr>"
  note n = node_new_any [of ?b]
  have l: "lifetime refBackend ?fresh ?a" using n by (rule node_lifetime)
  have nop: "\<not> operatorIDManagement ?a" and none: "localKeys ?a (GetKey foo) = None"
    by (simp_all add: node_def new_defs initial_list_received_def newLocalKeys_def)
  from eval_first_ref obtain b1 where
    f1: "Allocate refBackend live foo ?a = Some ((1, True, True, None), b1)"
    and k1: "localKeys b1 (GetKey foo) = Some ?e"
    and be: "backend b1 = ([(''foo'', 1)], [(1, ''foo'')])"
    by blast
  have "lifetime refBackend ?fresh b1" using l f1 by (rule lifetime.allocated)
  with n have i1: "allocator_inv b1" by (rule lifetime_facts)
  have nc: "\<not> ctx_done live 0" by (simp add: live_def)
  let ?bb = "b1\<lparr>localKeys := (localKeys b1)(GetKey foo \<mapsto> ?e\<lparr>lk_refcount := lk_refcount ?e + 1\<rparr>),
         mainCache := cache_insert (mainCache b1) foo (lk_id ?e)\<rparr>"
  from Allocate_fast_path [OF i1 k1 nc, of refBackend]
  have f2: "Allocate refBackend live foo b1 = Some ((1, False, False, None), ?bb)"
    by simp
  from f1 f2 have sq: "Allocate_seq refBackend [live, live] foo ?a =
      Some ([(1, True, True, None), (1, False, False, None)], ?bb)"
    by simp
  have ok: "\<forall>r\<in>set [(1, True, True, None), (1, False, False, None) :: alloc_result].
      fst r \<noteq> NoID \<and> snd (snd (snd r)) = None"
    by simp
  have ne: "[live, live] \<noteq> []" and len: "length [live, live] = length [live, live]"
    and lv: "\<forall>s\<in>set [live, live]. \<not> ctx_done s 0"
    using nc by simp_all
  from C3_only_last_release [OF n l nop none sq ok ne len lv] obtain e where
    0: "localKeys ?bb (GetKey foo) = Some e"
    and 1: "Release_seq refBackend (butlast [live, live]) foo ?bb =
          Some (replicate (length [live, live] - 1) (False, None),
            ?bb\<lparr>localKeys := (localKeys ?bb)(GetKey foo \<mapsto> e\<lparr>lk_refcount := 1\<rparr>)\<rparr>)"
    and 3: "Release refBackend (last [live, live]) foo
          (?bb\<lparr>localKeys := (localKeys ?bb)(GetKey foo \<mapsto> e\<lparr>lk_refcount := 1\<rparr>)\<rparr>) =
        Some ((True, None),
          ?bb\<lparr>localKeys := (localKeys ?bb)(GetKey foo := None),
            backend := snd (bRelease refBackend (backend ?bb)
              (fst (last [(1, True, True, None), (1, False, False, None) :: alloc_result])) foo),
            calls := calls ?bb @
              [CallRelease (fst (last [(1, True, True, None), (1, False, False, None) :: alloc_result])) foo]\<rparr>)"
    by blast
  let ?a2 = "?bb\<lparr>localKeys := (localKeys ?bb)(GetKey foo \<mapsto> e\<lparr>lk_refcount := 1\<rparr>)\<rparr>"
  let ?a3 = "?bb\<lparr>localKeys := (localKeys ?bb)(GetKey foo := None),
            backend := snd (bRelease refBackend (backend ?bb)
              (fst (last [(1, True, True, None), (1, False, False, None) :: alloc_result])) foo),
            calls := calls ?bb @
              [CallRelease (fst (last [(1, True, True, None), (1, False, False, None) :: alloc_result])) foo]\<rparr>"
  from 1 have r1: "Release refBackend live foo ?bb = Some ((False, None), ?a2)"
    by (auto split: option.splits)
  from 3 have r2: "Release refBackend live foo ?a2 = Some ((True, None), ?a3)" by simp
  have b0: "backend ?bb = ([(''foo'', 1)], [(1, ''foo'')])" using be by simp
  have c2: "calls ?a2 = calls ?bb" and b2: "backend ?a2 = backend ?bb" by simp_all
  have c3: "calls ?a3 = calls ?bb @ [CallRelease 1 foo]" by simp
  have b3: "backend ?a3 = ([(''foo'', 1)], [])"
    using be by (simp add: refBackend_def foo_def)
  have k3: "localKeys ?a3 (GetKey foo) = None" by simp
  from n l sq b0 r1 c2 b2 r2 c3 b3 k3
  have "NewAllocator ?b [WithMax 2, WithMaxAllocAttempts 3] = Inr ?fresh \<and>
     lifetime refBackend ?fresh ?a \<and>
     Allocate_seq refBackend [live, live] foo ?a =
       Some ([(1, True, True, None), (1, False, False, None)], ?bb) \<and>
     backend ?bb = ([(''foo'', 1)], [(1, ''foo'')]) \<and>
     Release refBackend live foo ?bb = Some ((False, None), ?a2) \<and>
     calls ?a2 = calls ?bb \<and> backend ?a2 = backend ?bb \<and>
     Release refBackend live foo ?a2 = Some ((True, None), ?a3) \<and>
     calls ?a3 = calls ?bb @ [CallRelease 1 foo] \<and> backend ?a3 = ([(''foo'', 1)], []) \<and>
     localKeys ?a3 (GetKey foo) = None"
    by (intro conjI)
  then show ?thesis by (intro exI)
qed




text \<open>
  C5, as amended. \<^verbatim>\<open>Allocate\<close> called with an already cancelled context returns the
  cancellation error and leaves the allocator as it was, backend and record of backend
  calls included, whenever the initial list has not been received yet, or the first
  \<^verbatim>\<open>select\<close> takes the case of the context.
\<close>

theorem C5_cancelled_before_list:
  assumes "\<forall>n. ctx_done s n" and "initialListDone a \<noteq> ClosedChan \<or> select_ctx s"
  shows "Allocate B s key a = Some ((NoID, False, False, Some AllocationCancelled), a)"
  using assms by (auto simp: Allocate_def wait_initial_def fail_def)

theorem C5_cancelled_before_list_witness:
  "(\<forall>n. ctx_done cancelled n) \<and>
   initialListDone (projr (NewAllocator () [])) = OpenChan \<and>
   Allocate failingBackend cancelled foo (projr (NewAllocator () [])) =
     Some ((NoID, False, False, Some AllocationCancelled), projr (NewAllocator () []))"
proof -
  have c: "\<forall>n. ctx_done cancelled n" by (simp add: cancelled_def)
  have o: "initialListDone (projr (NewAllocator () [])) = OpenChan" by (simp add: new_defs)
  then have "initialListDone (projr (NewAllocator () [])) \<noteq> ClosedChan \<or> select_ctx cancelled"
    by simp
  from C5_cancelled_before_list [OF c this] c o show ?thesis by simp
qed

text \<open>
  The claim as stated fails: once the initial list has been received both cases of the
  first \<^verbatim>\<open>select\<close> are ready and Go may take either. When it takes the list, the call
  goes on with the cancelled context: here it locks, looks up, creates the master key and
  takes a reference in the backend, and returns a nil error.
\<close>

theorem C5_cancelled_before_list_counterexample:
  "range (ctx_done cancelled) = {True} \<and>
   map_option fst
     (Allocate memBackend cancelled foo (node [] [WithMax 2, WithMaxAllocAttempts 3])) =
     Some (1, True, True, None) \<and>
   map_option (calls \<circ> snd)
     (Allocate memBackend cancelled foo (node [] [WithMax 2, WithMaxAllocAttempts 3])) =
     Some [CallLock foo, CallGetIfLocked foo 0, CallGet foo, CallAllocateIDIfLocked 1 foo 0,
           CallAcquireReference 1 foo 0, CallUnlock 0]"
  by (simp add: eval_defs)




text \<open>
  C7. In the new-allocation path of \<^verbatim>\<open>lockedAllocate\<close>, entered in a state whose local
  keys and pool are well-formed (as they are in every state of an instance), every failure
  leaves the local keys, the pool and the main cache as they were before the attempt: the
  local reservation is released and the leased ID is back in the pool. This holds whether
  the key has no local entry, or a local writer holds it under a different ID (the
  reservation fails and only the ID is given back), or under the leased ID (the reference
  taken is given back). The only failure before an ID is leased is the exhaustion error.
\<close>

theorem C7_new_allocation_unwinds:
  assumes "pool_wf (idPool a)" and "lk_wf (localKeys a)"
    and "lockedAllocate_new B key l a = ((i, nw, fu, Some e), a')"
  shows "localKeys a' = localKeys a \<and> idPool a' = idPool a \<and> mainCache a' = mainCache a \<and>
         (e = NoMoreAvailableIDs \<longleftrightarrow> available (idPool a) = {})"
  using assms by (rule lockedAllocate_new_unwinds_held)

theorem C7_new_allocation_unwinds_witness:
  "pool_wf (idPool (node ([] :: (string \<times> ID) list) [WithMax 2, WithMaxAllocAttempts 3])) \<and>
   lk_wf (localKeys (node ([] :: (string \<times> ID) list) [WithMax 2, WithMaxAllocAttempts 3])) \<and>
   (\<exists>a'. lockedAllocate_new noRefBackend foo 0
          (node ([] :: (string \<times> ID) list) [WithMax 2, WithMaxAllocAttempts 3]) =
        ((NoID, False, False, Some (SecondaryKeyCreationFailed ''foo'' (BackendError 7))), a') \<and>
      backend a' = [(''foo'', 1)] \<and>
      localKeys a' = localKeys (node ([] :: (string \<times> ID) list) [WithMax 2, WithMaxAllocAttempts 3]) \<and>
      idPool a' = idPool (node ([] :: (string \<times> ID) list) [WithMax 2, WithMaxAllocAttempts 3])) \<and>
   pool_wf (idPool foo_held) \<and> lk_wf (localKeys foo_held) \<and>
   (\<exists>a'. lockedAllocate_new memBackend foo 0 foo_held =
        ((NoID, False, False,
          Some (ReserveLocalKeyFailed ''foo'' (LocalKeyDifferentValue 1 2))), a') \<and>
      calls a' = [] \<and> localKeys a' = localKeys foo_held \<and> idPool a' = idPool foo_held)"
proof -
  let ?a = "node ([] :: (string \<times> ID) list) [WithMax 2, WithMaxAllocAttempts 3]"
  let ?r = "lockedAllocate_new noRefBackend foo 0 ?a"
  let ?q = "lockedAllocate_new memBackend foo 0 foo_held"
  have wf: "pool_wf (idPool ?a)" by (simp add: eval_defs pool_wf_def)
  have lw: "lk_wf (localKeys ?a)" by (simp add: eval_defs lk_wf_def)
  have 1: "fst ?r =
      (NoID, False, False, Some (SecondaryKeyCreationFailed ''foo'' (BackendError 7)))"
    by (simp add: eval_defs)
  have b: "backend (snd ?r) = [(''foo'', 1)]"
    by (simp add: eval_defs)
  from 1 have r: "?r =
      ((NoID, False, False, Some (SecondaryKeyCreationFailed ''foo'' (BackendError 7))), snd ?r)"
    by (simp add: prod_eq_iff)
  from C7_new_allocation_unwinds [OF wf lw r]
  have "localKeys (snd ?r) = localKeys ?a \<and> idPool (snd ?r) = idPool ?a" by simp
  with r b have "?r =
        ((NoID, False, False, Some (SecondaryKeyCreationFailed ''foo'' (BackendError 7))), snd ?r) \<and>
      backend (snd ?r) = [(''foo'', 1)] \<and> localKeys (snd ?r) = localKeys ?a \<and>
      idPool (snd ?r) = idPool ?a"
    by (simp only: simp_thms)
  then have A: "\<exists>a'. ?r =
        ((NoID, False, False, Some (SecondaryKeyCreationFailed ''foo'' (BackendError 7))), a') \<and>
      backend a' = [(''foo'', 1)] \<and> localKeys a' = localKeys ?a \<and> idPool a' = idPool ?a"
    by (rule exI)
  have wf2: "pool_wf (idPool foo_held)" by (simp add: foo_held_def pool_wf_def)
  have lw2: "lk_wf (localKeys foo_held)" by (simp add: foo_held_def lk_wf_def)
  have 2: "fst ?q =
      (NoID, False, False, Some (ReserveLocalKeyFailed ''foo'' (LocalKeyDifferentValue 1 2)))"
    by (simp add: foo_held_def eval_defs)
  have c: "calls (snd ?q) = []"
    by (simp add: foo_held_def eval_defs)
  from 2 have q: "?q =
      ((NoID, False, False, Some (ReserveLocalKeyFailed ''foo'' (LocalKeyDifferentValue 1 2))),
       snd ?q)"
    by (simp add: prod_eq_iff)
  from C7_new_allocation_unwinds [OF wf2 lw2 q]
  have "localKeys (snd ?q) = localKeys foo_held \<and> idPool (snd ?q) = idPool foo_held" by simp
  with q c have "?q =
      ((NoID, False, False, Some (ReserveLocalKeyFailed ''foo'' (LocalKeyDifferentValue 1 2))),
       snd ?q) \<and>
      calls (snd ?q) = [] \<and> localKeys (snd ?q) = localKeys foo_held \<and>
      idPool (snd ?q) = idPool foo_held"
    by (simp only: simp_thms)
  then have B: "\<exists>a'. ?q =
      ((NoID, False, False, Some (ReserveLocalKeyFailed ''foo'' (LocalKeyDifferentValue 1 2))), a') \<and>
      calls a' = [] \<and> localKeys a' = localKeys foo_held \<and> idPool a' = idPool foo_held"
    by (rule exI)
  from wf lw A wf2 lw2 B show ?thesis by (intro conjI)
qed

text \<open>
  C8. \<^verbatim>\<open>NewAllocator\<close> returns an error, whatever the options, when the configured
  minimum is below 1 or the configured maximum is not above the minimum; an instance it
  does return has \<open>1 \<le> min < max\<close>, the configured values, in every state of its
  lifetime.
\<close>

theorem C8_NewAllocator_range:
  "(min_id (configured b opts) < 1 \<longrightarrow> NewAllocator b opts = Inl MinimumIDTooSmall) \<and>
   (\<not> min_id (configured b opts) < 1 \<and> max_id (configured b opts) \<le> min_id (configured b opts) \<longrightarrow>
      NewAllocator b opts =
        Inl (MaximumIDNotGreater (max_id (configured b opts)) (min_id (configured b opts)))) \<and>
   (NewAllocator b opts = Inr a0 \<and> lifetime B a0 a \<longrightarrow>
      min_id a = min_id (configured b opts) \<and> max_id a = max_id (configured b opts) \<and>
      1 \<le> min_id a \<and> min_id a < max_id a)"
proof (intro conjI impI)
  show "NewAllocator b opts = Inl MinimumIDTooSmall" if "min_id (configured b opts) < 1"
    using that by (simp add: NewAllocator_def Let_def)
  show "NewAllocator b opts =
      Inl (MaximumIDNotGreater (max_id (configured b opts)) (min_id (configured b opts)))"
    if "\<not> min_id (configured b opts) < 1 \<and> max_id (configured b opts) \<le> min_id (configured b opts)"
    using that by (simp add: NewAllocator_def Let_def)
  assume h: "NewAllocator b opts = Inr a0 \<and> lifetime B a0 a"
  then have r: "min_id a = min_id a0 \<and> max_id a = max_id a0"
    using lifetime_range [of B a0 a] by blast
  from h have n: "NewAllocator b opts = Inr a0" ..
  show "min_id a = min_id (configured b opts)" using r NewAllocator_Inr(1) [OF n] by simp
  show "max_id a = max_id (configured b opts)" using r NewAllocator_Inr(2) [OF n] by simp
  show "1 \<le> min_id a" using r NewAllocator_Inr(3) [OF n] by simp
  show "min_id a < max_id a" using r NewAllocator_Inr(4) [OF n] by simp
qed

theorem C8_NewAllocator_range_witness:
  "NewAllocator () [WithMin 0] = Inl MinimumIDTooSmall \<and>
   NewAllocator () [WithMin 5, WithMax 5] = Inl (MaximumIDNotGreater 5 5) \<and>
   (\<exists>a0. NewAllocator () [WithMin 5, WithMax 9] = Inr a0 \<and>
      lifetime failingBackend a0 (initial_list_received a0) \<and>
      min_id (initial_list_received a0) = 5 \<and> max_id (initial_list_received a0) = 9)"
proof -
  have c: "min_id (configured () [WithMin 0]) < 1"
    "\<not> min_id (configured () [WithMin 5, WithMax 5]) < 1 \<and>
     max_id (configured () [WithMin 5, WithMax 5]) \<le> min_id (configured () [WithMin 5, WithMax 5])"
    "min_id (configured () [WithMin 5, WithMax 5]) = 5"
    "max_id (configured () [WithMin 5, WithMax 5]) = 5"
    "min_id (configured () [WithMin 5, WithMax 9]) = 5"
    "max_id (configured () [WithMin 5, WithMax 9]) = 9"
    by (simp_all add: configured_def initial_Allocator_def)
  obtain a0 :: "unit Allocator" where n: "NewAllocator () [WithMin 5, WithMax 9] = Inr a0"
    by (simp add: new_defs)
  have l: "lifetime failingBackend a0 (initial_list_received a0)"
    by (intro lifetime.listed lifetime.fresh)
  from C8_NewAllocator_range [of "()" "[WithMin 0]"] c(1)
  have 1: "NewAllocator () [WithMin 0] = Inl MinimumIDTooSmall" by blast
  from C8_NewAllocator_range [of "()" "[WithMin 5, WithMax 5]"] c(2)
  have 2: "NewAllocator () [WithMin 5, WithMax 5] = Inl (MaximumIDNotGreater 5 5)"
    by (simp add: c(3,4))
  from C8_NewAllocator_range [of "()" "[WithMin 5, WithMax 9]" a0 failingBackend
      "initial_list_received a0"] n l
  have 3: "min_id (initial_list_received a0) = 5 \<and> max_id (initial_list_received a0) = 9"
    by (simp add: c(5,6))
  from 1 2 3 n l show ?thesis by blast
qed

text \<open>
  C9. With operator-managed IDs \<^verbatim>\<open>Release\<close> returns \<open>(false, nil)\<close> at once: whatever
  the state of the initial list and of the context, the allocator, its local keys, the
  backend and the record of backend calls are as before.
\<close>

theorem C9_Release_skipped:
  "operatorIDManagement a \<Longrightarrow> Release B s key a = Some ((False, None), a)"
  by (simp add: Release_def)

theorem C9_Release_skipped_witness:
  "operatorIDManagement (projr (NewAllocator () [WithOperatorIDManagement])) \<and>
   initialListDone (projr (NewAllocator () [WithOperatorIDManagement])) = OpenChan \<and>
   Release failingBackend live foo (projr (NewAllocator () [WithOperatorIDManagement])) =
     Some ((False, None), projr (NewAllocator () [WithOperatorIDManagement]))"
proof -
  have op: "operatorIDManagement (projr (NewAllocator () [WithOperatorIDManagement]))"
    by (simp add: new_defs)
  have ld: "initialListDone (projr (NewAllocator () [WithOperatorIDManagement])) = OpenChan"
    by (simp add: new_defs)
  show ?thesis
    using op ld C9_Release_skipped [OF op, of failingBackend live foo] by simp
qed

text \<open>
  C10. \<^verbatim>\<open>Delete\<close> is not idempotent. On an instance built by \<^verbatim>\<open>NewAllocator\<close> the first
  \<^verbatim>\<open>Delete\<close> returns; once a \<^verbatim>\<open>Delete\<close> has returned, every later \<^verbatim>\<open>Delete\<close> of the
  instance, whatever happened in between, panics closing the closed \<^verbatim>\<open>stopGC\<close>.
\<close>

theorem C10_Delete_twice_panics:
  assumes "NewAllocator b opts = Inr a0"
  shows "(\<exists>a1. Delete a0 = Inr a1) \<and>
         (\<forall>a a1 a2. lifetime B a0 a \<and> Delete a = Inr a1 \<and> lifetime B a1 a2 \<longrightarrow>
            Delete a2 = Inl CloseOfClosedChannel)"
proof (intro conjI allI impI)
  have "stopGC a0 = OpenChan" using assms by (rule NewAllocator_Inr)
  then show "\<exists>a1. Delete a0 = Inr a1" by (simp add: Delete_def)
next
  fix a a1 a2
  assume h: "lifetime B a0 a \<and> Delete a = Inr a1 \<and> lifetime B a1 a2"
  then have "stopGC a1 = ClosedChan" by (auto dest: Delete_Inr)
  with h have "stopGC a2 = ClosedChan" by (auto intro: lifetime_closed)
  then show "Delete a2 = Inl CloseOfClosedChannel" by (simp add: Delete_def)
qed

theorem C10_Delete_twice_panics_witness:
  "\<exists>a0 a1. NewAllocator () [] = Inr a0 \<and> Delete a0 = Inr a1 \<and>
     Delete (initial_list_received a1) = Inl CloseOfClosedChannel"
proof -
  obtain a0 :: "unit Allocator" where n: "NewAllocator () [] = Inr a0"
    by (simp add: new_defs)
  from C10_Delete_twice_panics [OF n, of failingBackend]
  obtain a1 where d: "Delete a0 = Inr a1"
    and p: "\<And>a a1 a2. lifetime failingBackend a0 a \<Longrightarrow> Delete a = Inr a1 \<Longrightarrow>
        lifetime failingBackend a1 a2 \<Longrightarrow> Delete a2 = Inl CloseOfClosedChannel"
    by blast
  have "lifetime failingBackend a1 (initial_list_received a1)"
    by (intro lifetime.listed lifetime.fresh)
  with p [OF lifetime.fresh d] have "Delete (initial_list_received a1) = Inl CloseOfClosedChannel"
    by blast
  with n d show ?thesis by blast
qed

end
